theory Spec2Isabelle
  imports Complex_Main "HOL-Library.Log_Nat" "HOL-Library.Sublist"
begin

section \<open>JavaScript numbers\<close>

text \<open>
  A JavaScript number is an IEEE 754 double: \<open>NaN\<close>, an infinity, or a finite value,
  here a rational (the finite doubles are the rationals \<open>m * 2^e\<close> with \<open>|m| < 2^53\<close>
  and \<open>-1074 \<le> e \<le> 971\<close>). Negative zero is identified with zero: \<open>-0 === 0\<close>, both
  are falsy, both print as \<open>0\<close>, and the handlers never divide by a zero.
\<close>

datatype number = NaN | PosInfinity | NegInfinity | Finite rat

text \<open>The nearest integer, a tie going to the even one.\<close>

definition roundHalfEven :: "rat \<Rightarrow> int" where
  "roundHalfEven x =
     (let f = \<lfloor>x\<rfloor>; d = x - of_int f
      in if d < 1 / 2 then f else if 1 / 2 < d then f + 1 else if even f then f else f + 1)"

text \<open>
  For a positive \<open>x\<close>, the exponent \<open>k\<close> with \<open>2^k \<le> x < 2^(k+1)\<close>, from the bit
  lengths of numerator and denominator.
\<close>

definition exponentOf :: "rat \<Rightarrow> int" where
  "exponentOf x =
     (let (a, b) = quotient_of x; k = bitlen a - bitlen b
      in if 2 powi k \<le> x then k else k - 1)"

text \<open>
  For a positive \<open>x\<close>, the nearest value with 53 significant bits (fewer below
  \<open>2^-1022\<close>, where the spacing stays \<open>2^-1074\<close>), a tie going to the even significand.
\<close>

definition nearest :: "rat \<Rightarrow> rat" where
  "nearest x =
     (let e = max (exponentOf x - 52) (- 1074);
          m = roundHalfEven (x / 2 powi e)
      in of_int m * 2 powi e)"

text \<open>
  The number that an exact result \<open>x\<close> becomes: the nearest double, or an infinity
  when that rounding reaches \<open>2^1024\<close>.
\<close>

definition fl :: "rat \<Rightarrow> number" where
  "fl x =
     (if x = 0 then Finite 0
      else let v = nearest \<bar>x\<bar>
           in if 2 ^ 1024 \<le> v then (if 0 < x then PosInfinity else NegInfinity)
              else Finite (sgn x * v))"

text \<open>The operators \<open>-\<close>, \<open>*\<close> and \<open>/\<close> on numbers, and \<open>Math.ceil\<close>.\<close>

fun js_minus :: "number \<Rightarrow> number \<Rightarrow> number" where
  "js_minus NaN _ = NaN"
| "js_minus _ NaN = NaN"
| "js_minus (Finite x) (Finite y) = fl (x - y)"
| "js_minus (Finite x) PosInfinity = NegInfinity"
| "js_minus (Finite x) NegInfinity = PosInfinity"
| "js_minus PosInfinity PosInfinity = NaN"
| "js_minus PosInfinity _ = PosInfinity"
| "js_minus NegInfinity NegInfinity = NaN"
| "js_minus NegInfinity _ = NegInfinity"

fun js_times :: "number \<Rightarrow> number \<Rightarrow> number" where
  "js_times NaN _ = NaN"
| "js_times _ NaN = NaN"
| "js_times (Finite x) (Finite y) = fl (x * y)"
| "js_times (Finite x) PosInfinity =
     (if x = 0 then NaN else if 0 < x then PosInfinity else NegInfinity)"
| "js_times (Finite x) NegInfinity =
     (if x = 0 then NaN else if 0 < x then NegInfinity else PosInfinity)"
| "js_times PosInfinity (Finite y) =
     (if y = 0 then NaN else if 0 < y then PosInfinity else NegInfinity)"
| "js_times NegInfinity (Finite y) =
     (if y = 0 then NaN else if 0 < y then NegInfinity else PosInfinity)"
| "js_times PosInfinity PosInfinity = PosInfinity"
| "js_times PosInfinity NegInfinity = NegInfinity"
| "js_times NegInfinity PosInfinity = NegInfinity"
| "js_times NegInfinity NegInfinity = PosInfinity"

fun js_divide :: "number \<Rightarrow> number \<Rightarrow> number" where
  "js_divide NaN _ = NaN"
| "js_divide _ NaN = NaN"
| "js_divide (Finite x) (Finite y) =
     (if y = 0 then (if x = 0 then NaN else if 0 < x then PosInfinity else NegInfinity)
      else fl (x / y))"
| "js_divide (Finite x) PosInfinity = Finite 0"
| "js_divide (Finite x) NegInfinity = Finite 0"
| "js_divide PosInfinity (Finite y) = (if 0 \<le> y then PosInfinity else NegInfinity)"
| "js_divide NegInfinity (Finite y) = (if 0 \<le> y then NegInfinity else PosInfinity)"
| "js_divide _ _ = NaN"

fun Math_ceil :: "number \<Rightarrow> number" where
  "Math_ceil (Finite x) = Finite (of_int \<lceil>x\<rceil>)"
| "Math_ceil n = n"

text \<open>\<open>n || d\<close> for numbers: \<open>NaN\<close> and zero are the falsy numbers.\<close>

definition orDefault :: "number \<Rightarrow> number \<Rightarrow> number" where
  "orDefault n d = (if n = NaN \<or> n = Finite 0 then d else n)"

section \<open>Query parameters\<close>

text \<open>
  \<open>req.query\<close> maps parameter names to what the query parser made of them: a string;
  an array, when the parameter is repeated; an object, when the extended parser reads
  bracket syntax. An absent parameter is \<open>undefined\<close>. Strings are lists of 8-bit
  characters, read as code units below 256.
\<close>

datatype qvalue =
    QString string
  | QArray "qvalue list"
  | QObject "(string \<times> qvalue) list"

type_synonym query = "string \<rightharpoonup> qvalue"

text \<open>A query all of whose parameters are strings.\<close>

definition stringQuery :: "(string \<rightharpoonup> string) \<Rightarrow> query" where
  "stringQuery sq = (\<lambda>name. map_option QString (sq name))"

text \<open>The errors thrown by the language itself, with their message.\<close>

datatype exception = TypeError string

text \<open>\<open>Array.prototype.join(',')\<close> over the strings of the elements; the first error wins.\<close>

fun joinComma :: "(exception + string) list \<Rightarrow> exception + string" where
  "joinComma [] = Inr []"
| "joinComma [x] = x"
| "joinComma (x # xs) =
     (case x of
        Inl e \<Rightarrow> Inl e
      | Inr s \<Rightarrow> (case joinComma xs of Inl e \<Rightarrow> Inl e | Inr r \<Rightarrow> Inr (s @ '','' @ r)))"

text \<open>
  \<open>ToString\<close> of a query value. An array is joined with commas. A plain object gives
  \<open>[object Object]\<close>, unless it has a member named \<open>toString\<close>: that member is no
  function, \<open>valueOf\<close> gives no primitive either, and the conversion throws.
\<close>

fun ToString_value :: "qvalue \<Rightarrow> exception + string" where
  "ToString_value (QString s) = Inr s"
| "ToString_value (QArray vs) = joinComma (map ToString_value vs)"
| "ToString_value (QObject ms) =
     (if ''toString'' \<in> set (map fst ms)
      then Inl (TypeError ''Cannot convert object to primitive value'')
      else Inr ''[object Object]'')"

definition ToString :: "qvalue option \<Rightarrow> exception + string" where
  "ToString v = (case v of None \<Rightarrow> Inr ''undefined'' | Some x \<Rightarrow> ToString_value x)"

text \<open>
  White space that \<open>parseInt\<close> skips, among the code units below 256: TAB, LF, VT, FF, CR,
  SP and NBSP.
\<close>

definition isWhiteSpace :: "char \<Rightarrow> bool" where
  "isWhiteSpace c \<longleftrightarrow> (of_char c :: nat) \<in> {9, 10, 11, 12, 13, 32, 160}"

text \<open>The value of a character as a digit: \<open>0-9\<close>, then \<open>a-z\<close> or \<open>A-Z\<close> from ten on.\<close>

definition digitValue :: "char \<Rightarrow> nat option" where
  "digitValue c =
     (let n = (of_char c :: nat)
      in if 48 \<le> n \<and> n \<le> 57 then Some (n - 48)
         else if 97 \<le> n \<and> n \<le> 122 then Some (n - 87)
         else if 65 \<le> n \<and> n \<le> 90 then Some (n - 55)
         else None)"

text \<open>The longest prefix of digits of radix \<open>R\<close>, as their values.\<close>

fun radixDigits :: "nat \<Rightarrow> string \<Rightarrow> nat list" where
  "radixDigits R [] = []"
| "radixDigits R (c # cs) =
     (case digitValue c of
        None \<Rightarrow> []
      | Some d \<Rightarrow> if d < R then d # radixDigits R cs else [])"

text \<open>
  The integer that \<open>parseInt(string)\<close> reads when it has no radix argument, following
  its steps in ECMAScript: skip leading white space, read a sign, read a \<open>0x\<close> or \<open>0X\<close>
  prefix (radix 16, otherwise 10), take the longest prefix of digits; \<open>None\<close> when
  there is no digit.
\<close>

definition mathInt :: "string \<Rightarrow> int option" where
  "mathInt inputString =
     (let S = dropWhile isWhiteSpace inputString;
          sign = (if take 1 S = ''-'' then - 1 else 1 :: int);
          S = (if take 1 S = ''+'' \<or> take 1 S = ''-'' then drop 1 S else S);
          stripPrefix = (take 2 S = ''0x'' \<or> take 2 S = ''0X'');
          R = (if stripPrefix then 16 else 10);
          S = (if stripPrefix then drop 2 S else S);
          Z = radixDigits R S
      in if Z = [] then None
         else Some (sign * int (foldl (\<lambda>n d. n * R + d) 0 Z)))"

text \<open>
  \<open>parseInt\<close>: \<open>NaN\<close> when there is no digit, otherwise the number nearest to the
  integer read, which is the integer itself up to \<open>2^53\<close> and an infinity from
  \<open>2^1024\<close> on. (ECMAScript lets an implementation read the digits after the
  twentieth significant one as zeros; an integer up to \<open>2^53\<close> has at most sixteen, and
  four hundred nines stay above \<open>2^1024\<close> either way.)
\<close>

definition parseInt :: "string \<Rightarrow> number" where
  "parseInt inputString =
     (case mathInt inputString of None \<Rightarrow> NaN | Some n \<Rightarrow> fl (of_int n))"

text \<open>\<open>String.prototype.split(',')\<close>: the fields between the commas; never empty.\<close>

fun split_comma :: "string \<Rightarrow> string list" where
  "split_comma [] = [[]]"
| "split_comma (c # cs) =
     (if c = CHR '','' then [] # split_comma cs
      else (case split_comma cs of
              [] \<Rightarrow> [[c]]
            | w # ws \<Rightarrow> (c # w) # ws))"

section \<open>Requests, responses and the persistence layer\<close>

text \<open>The three entity models of \<open>db\<close>: \<open>db.Course\<close>, \<open>db.Student\<close>, \<open>db.Teacher\<close>.\<close>

datatype model = Course | Student | Teacher

text \<open>
  The options object that a list handler passes to \<open>findAll\<close>:
  \<open>{limit, offset, order: [['createdAt', sort]], include: includeModels}\<close>.
\<close>

record findOptions =
  opt_limit :: number
  opt_offset :: number
  opt_order :: "(string \<times> string) list"
  opt_include :: "model list"

text \<open>
  The values a handler hands to \<open>res.json\<close>: numbers, strings, an entity, a list of
  entities, and objects, whose members keep the order in which the object literal
  writes them.
\<close>

datatype 'r json =
    JNumber number
  | JString string
  | JEntity 'r
  | JEntities "'r list"
  | JObject "(string \<times> 'r json) list"

text \<open>
  What \<open>res.status(n).json(v)\<close> sends; \<open>res.json(v)\<close> alone sends status 200.
\<close>

record 'r response =
  status :: nat
  body :: "'r json"

type_synonym fields = "(string \<times> string) list"

text \<open>
  The persistence layer \<open>db\<close> is an external collaborator; the handlers take it as a
  parameter. Each call runs on the state \<open>'s\<close> of the database and returns the new
  state with either the value (\<open>Inr\<close>) or the message of the error it throws
  (\<open>Inl\<close>). \<open>'r\<close> is the type of entity instances. \<open>count\<close> returns a number.
  \<open>findByPk\<close> takes the primary key and the models to include (none when the handler
  passes no options); \<open>update\<close> and \<open>destroy\<close> are the instance methods.
\<close>

record ('s, 'r) persistence =
  count :: "model \<Rightarrow> 's \<Rightarrow> (string + number) \<times> 's"
  findAll :: "model \<Rightarrow> findOptions \<Rightarrow> 's \<Rightarrow> (string + 'r list) \<times> 's"
  findByPk :: "model \<Rightarrow> string \<Rightarrow> model list \<Rightarrow> 's \<Rightarrow> (string + 'r option) \<times> 's"
  update :: "model \<Rightarrow> 'r \<Rightarrow> fields \<Rightarrow> 's \<Rightarrow> (string + 'r) \<times> 's"
  destroy :: "model \<Rightarrow> 'r \<Rightarrow> 's \<Rightarrow> (string + unit) \<times> 's"

text \<open>The two fixed response bodies and the body of a caught error.\<close>

definition errorBody :: "string \<Rightarrow> 'r json" where
  "errorBody msg = JObject [(''error'', JString msg)]"

definition messageBody :: "string \<Rightarrow> 'r json" where
  "messageBody msg = JObject [(''message'', JString msg)]"

section \<open>The list handlers\<close>

text \<open>
  The part of a list handler before its \<open>try\<close> block computes four locals from the
  query: \<open>limit\<close>, \<open>page\<close>, \<open>sort\<close> (here \<open>sort_dir\<close>) and \<open>includeModels\<close> (through
  \<open>populate\<close>). An error thrown there is caught by nothing in the handler: the handler
  sends no response and the error leaves it (\<open>Inl\<close>).
\<close>

record listLocals =
  limit :: number
  page :: number
  sort_dir :: string
  includeModels :: "model list"

text \<open>
  \<open>req.query.populate?.split(',') || []\<close>: \<open>?.\<close> covers an absent parameter only; an
  array or an object has no method \<open>split\<close>, and the call throws.
\<close>

definition populateOf :: "query \<Rightarrow> exception + string list" where
  "populateOf q =
     (case q ''populate'' of
        None \<Rightarrow> Inr []
      | Some (QString p) \<Rightarrow> Inr (split_comma p)
      | Some _ \<Rightarrow> Inl (TypeError ''req.query.populate?.split is not a function''))"

definition getAllStudents_locals :: "query \<Rightarrow> exception + listLocals" where
  "getAllStudents_locals q =
     (case ToString (q ''limit'') of
        Inl e \<Rightarrow> Inl e
      | Inr limitString \<Rightarrow>
     (case ToString (q ''page'') of
        Inl e \<Rightarrow> Inl e
      | Inr pageString \<Rightarrow>
     (case populateOf q of
        Inl e \<Rightarrow> Inl e
      | Inr populate \<Rightarrow>
          Inr \<lparr> limit = orDefault (parseInt limitString) (Finite 10),
                page = orDefault (parseInt pageString) (Finite 1),
                sort_dir = (if q ''sort'' = Some (QString ''desc'') then ''DESC'' else ''ASC''),
                includeModels =
                  (if ''teacher'' \<in> set populate then [Teacher] else []) @
                  (if ''courses'' \<in> set populate then [Course] else []) \<rparr>)))"

definition getAllCourses_locals :: "query \<Rightarrow> exception + listLocals" where
  "getAllCourses_locals q =
     (case ToString (q ''limit'') of
        Inl e \<Rightarrow> Inl e
      | Inr limitString \<Rightarrow>
     (case ToString (q ''page'') of
        Inl e \<Rightarrow> Inl e
      | Inr pageString \<Rightarrow>
     (case populateOf q of
        Inl e \<Rightarrow> Inl e
      | Inr populate \<Rightarrow>
          Inr \<lparr> limit = orDefault (parseInt limitString) (Finite 10),
                page = orDefault (parseInt pageString) (Finite 1),
                sort_dir = (if q ''sort'' = Some (QString ''desc'') then ''DESC'' else ''ASC''),
                includeModels =
                  (if ''teacher'' \<in> set populate then [Teacher] else []) @
                  (if ''student'' \<in> set populate then [Student] else []) \<rparr>)))"

definition getAllTeachers_locals :: "query \<Rightarrow> exception + listLocals" where
  "getAllTeachers_locals q =
     (case ToString (q ''limit'') of
        Inl e \<Rightarrow> Inl e
      | Inr limitString \<Rightarrow>
     (case ToString (q ''page'') of
        Inl e \<Rightarrow> Inl e
      | Inr pageString \<Rightarrow>
     (case populateOf q of
        Inl e \<Rightarrow> Inl e
      | Inr populate \<Rightarrow>
          Inr \<lparr> limit = orDefault (parseInt limitString) (Finite 10),
                page = orDefault (parseInt pageString) (Finite 1),
                sort_dir = (if q ''sort'' = Some (QString ''desc'') then ''DESC'' else ''ASC''),
                includeModels =
                  (if ''students'' \<in> set populate then [Student] else []) @
                  (if ''courses'' \<in> set populate then [Course] else []) \<rparr>)))"

text \<open>The options object literal of the \<open>findAll\<close> call, the same in the three handlers.\<close>

definition findAllOptions :: "listLocals \<Rightarrow> findOptions" where
  "findAllOptions l =
     \<lparr> opt_limit = limit l,
       opt_offset = js_times (js_minus (page l) (Finite 1)) (limit l),
       opt_order = [(''createdAt'', sort_dir l)],
       opt_include = includeModels l \<rparr>"

text \<open>
  The \<open>try\<close> block: the count, then the page of entities, then the envelope; an error
  thrown by either call is caught and answered with status 500.
\<close>

definition getAllStudents ::
    "('s, 'r) persistence \<Rightarrow> query \<Rightarrow> 's \<Rightarrow> (exception + 'r response) \<times> 's" where
  "getAllStudents db q s =
     (case getAllStudents_locals q of
        Inl e \<Rightarrow> (Inl e, s)
      | Inr l \<Rightarrow>
     (case count db Student s of
        (Inl err, s1) \<Rightarrow> (Inr \<lparr>status = 500, body = errorBody err\<rparr>, s1)
      | (Inr total_count, s1) \<Rightarrow>
          (case findAll db Student (findAllOptions l) s1 of
             (Inl err, s2) \<Rightarrow> (Inr \<lparr>status = 500, body = errorBody err\<rparr>, s2)
           | (Inr students, s2) \<Rightarrow>
               (Inr \<lparr>status = 200,
                     body = JObject
                       [(''total'', JNumber total_count),
                        (''page'', JNumber (page l)),
                        (''totalPages'',
                           JNumber (Math_ceil (js_divide total_count (limit l)))),
                        (''data'', JEntities students)]\<rparr>, s2))))"

definition getAllCourses ::
    "('s, 'r) persistence \<Rightarrow> query \<Rightarrow> 's \<Rightarrow> (exception + 'r response) \<times> 's" where
  "getAllCourses db q s =
     (case getAllCourses_locals q of
        Inl e \<Rightarrow> (Inl e, s)
      | Inr l \<Rightarrow>
     (case count db Course s of
        (Inl err, s1) \<Rightarrow> (Inr \<lparr>status = 500, body = errorBody err\<rparr>, s1)
      | (Inr total_count, s1) \<Rightarrow>
          (case findAll db Course (findAllOptions l) s1 of
             (Inl err, s2) \<Rightarrow> (Inr \<lparr>status = 500, body = errorBody err\<rparr>, s2)
           | (Inr courses, s2) \<Rightarrow>
               (Inr \<lparr>status = 200,
                     body = JObject
                       [(''total'', JNumber total_count),
                        (''page'', JNumber (page l)),
                        (''data'', JEntities courses),
                        (''totalPages'',
                           JNumber (Math_ceil (js_divide total_count (limit l))))]\<rparr>,
                s2))))"

definition getAllTeachers ::
    "('s, 'r) persistence \<Rightarrow> query \<Rightarrow> 's \<Rightarrow> (exception + 'r response) \<times> 's" where
  "getAllTeachers db q s =
     (case getAllTeachers_locals q of
        Inl e \<Rightarrow> (Inl e, s)
      | Inr l \<Rightarrow>
     (case count db Teacher s of
        (Inl err, s1) \<Rightarrow> (Inr \<lparr>status = 500, body = errorBody err\<rparr>, s1)
      | (Inr total_count, s1) \<Rightarrow>
          (case findAll db Teacher (findAllOptions l) s1 of
             (Inl err, s2) \<Rightarrow> (Inr \<lparr>status = 500, body = errorBody err\<rparr>, s2)
           | (Inr teachers, s2) \<Rightarrow>
               (Inr \<lparr>status = 200,
                     body = JObject
                       [(''total'', JNumber total_count),
                        (''page'', JNumber (page l)),
                        (''totalPages'',
                           JNumber (Math_ceil (js_divide total_count (limit l)))),
                        (''data'', JEntities teachers)]\<rparr>, s2))))"

section \<open>The handlers of one entity\<close>

text \<open>
  Get by id: the lookup includes a fixed pair of related models; a lookup that
  finds nothing is answered 404.
\<close>

definition getStudentById ::
    "('s, 'r) persistence \<Rightarrow> string \<Rightarrow> 's \<Rightarrow> 'r response \<times> 's" where
  "getStudentById db ident s =
     (case findByPk db Student ident [Course, Teacher] s of
        (Inl err, s1) \<Rightarrow> (\<lparr>status = 500, body = errorBody err\<rparr>, s1)
      | (Inr None, s1) \<Rightarrow> (\<lparr>status = 404, body = messageBody ''Not found''\<rparr>, s1)
      | (Inr (Some student), s1) \<Rightarrow> (\<lparr>status = 200, body = JEntity student\<rparr>, s1))"

definition getCourseById ::
    "('s, 'r) persistence \<Rightarrow> string \<Rightarrow> 's \<Rightarrow> 'r response \<times> 's" where
  "getCourseById db ident s =
     (case findByPk db Course ident [Student, Teacher] s of
        (Inl err, s1) \<Rightarrow> (\<lparr>status = 500, body = errorBody err\<rparr>, s1)
      | (Inr None, s1) \<Rightarrow> (\<lparr>status = 404, body = messageBody ''Not found''\<rparr>, s1)
      | (Inr (Some course), s1) \<Rightarrow> (\<lparr>status = 200, body = JEntity course\<rparr>, s1))"

definition getTeacherById ::
    "('s, 'r) persistence \<Rightarrow> string \<Rightarrow> 's \<Rightarrow> 'r response \<times> 's" where
  "getTeacherById db ident s =
     (case findByPk db Teacher ident [Course, Student] s of
        (Inl err, s1) \<Rightarrow> (\<lparr>status = 500, body = errorBody err\<rparr>, s1)
      | (Inr None, s1) \<Rightarrow> (\<lparr>status = 404, body = messageBody ''Not found''\<rparr>, s1)
      | (Inr (Some teacher), s1) \<Rightarrow> (\<lparr>status = 200, body = JEntity teacher\<rparr>, s1))"

text \<open>
  Update: look the entity up with no options, answer 404 when there is none,
  otherwise update the instance with the request body and send it.
\<close>

definition updateStudent ::
    "('s, 'r) persistence \<Rightarrow> string \<Rightarrow> fields \<Rightarrow> 's \<Rightarrow> 'r response \<times> 's" where
  "updateStudent db ident reqBody s =
     (case findByPk db Student ident [] s of
        (Inl err, s1) \<Rightarrow> (\<lparr>status = 500, body = errorBody err\<rparr>, s1)
      | (Inr None, s1) \<Rightarrow> (\<lparr>status = 404, body = messageBody ''Not found''\<rparr>, s1)
      | (Inr (Some student), s1) \<Rightarrow>
          (case update db Student student reqBody s1 of
             (Inl err, s2) \<Rightarrow> (\<lparr>status = 500, body = errorBody err\<rparr>, s2)
           | (Inr student', s2) \<Rightarrow> (\<lparr>status = 200, body = JEntity student'\<rparr>, s2)))"

definition updateCourse ::
    "('s, 'r) persistence \<Rightarrow> string \<Rightarrow> fields \<Rightarrow> 's \<Rightarrow> 'r response \<times> 's" where
  "updateCourse db ident reqBody s =
     (case findByPk db Course ident [] s of
        (Inl err, s1) \<Rightarrow> (\<lparr>status = 500, body = errorBody err\<rparr>, s1)
      | (Inr None, s1) \<Rightarrow> (\<lparr>status = 404, body = messageBody ''Not found''\<rparr>, s1)
      | (Inr (Some course), s1) \<Rightarrow>
          (case update db Course course reqBody s1 of
             (Inl err, s2) \<Rightarrow> (\<lparr>status = 500, body = errorBody err\<rparr>, s2)
           | (Inr course', s2) \<Rightarrow> (\<lparr>status = 200, body = JEntity course'\<rparr>, s2)))"

definition updateTeacher ::
    "('s, 'r) persistence \<Rightarrow> string \<Rightarrow> fields \<Rightarrow> 's \<Rightarrow> 'r response \<times> 's" where
  "updateTeacher db ident reqBody s =
     (case findByPk db Teacher ident [] s of
        (Inl err, s1) \<Rightarrow> (\<lparr>status = 500, body = errorBody err\<rparr>, s1)
      | (Inr None, s1) \<Rightarrow> (\<lparr>status = 404, body = messageBody ''Not found''\<rparr>, s1)
      | (Inr (Some teacher), s1) \<Rightarrow>
          (case update db Teacher teacher reqBody s1 of
             (Inl err, s2) \<Rightarrow> (\<lparr>status = 500, body = errorBody err\<rparr>, s2)
           | (Inr teacher', s2) \<Rightarrow> (\<lparr>status = 200, body = JEntity teacher'\<rparr>, s2)))"

text \<open>Delete: the same lookup, then \<open>destroy\<close> on the instance.\<close>

definition deleteStudent ::
    "('s, 'r) persistence \<Rightarrow> string \<Rightarrow> 's \<Rightarrow> 'r response \<times> 's" where
  "deleteStudent db ident s =
     (case findByPk db Student ident [] s of
        (Inl err, s1) \<Rightarrow> (\<lparr>status = 500, body = errorBody err\<rparr>, s1)
      | (Inr None, s1) \<Rightarrow> (\<lparr>status = 404, body = messageBody ''Not found''\<rparr>, s1)
      | (Inr (Some student), s1) \<Rightarrow>
          (case destroy db Student student s1 of
             (Inl err, s2) \<Rightarrow> (\<lparr>status = 500, body = errorBody err\<rparr>, s2)
           | (Inr _, s2) \<Rightarrow> (\<lparr>status = 200, body = messageBody ''Deleted''\<rparr>, s2)))"

definition deleteCourse ::
    "('s, 'r) persistence \<Rightarrow> string \<Rightarrow> 's \<Rightarrow> 'r response \<times> 's" where
  "deleteCourse db ident s =
     (case findByPk db Course ident [] s of
        (Inl err, s1) \<Rightarrow> (\<lparr>status = 500, body = errorBody err\<rparr>, s1)
      | (Inr None, s1) \<Rightarrow> (\<lparr>status = 404, body = messageBody ''Not found''\<rparr>, s1)
      | (Inr (Some course), s1) \<Rightarrow>
          (case destroy db Course course s1 of
             (Inl err, s2) \<Rightarrow> (\<lparr>status = 500, body = errorBody err\<rparr>, s2)
           | (Inr _, s2) \<Rightarrow> (\<lparr>status = 200, body = messageBody ''Deleted''\<rparr>, s2)))"

definition deleteTeacher ::
    "('s, 'r) persistence \<Rightarrow> string \<Rightarrow> 's \<Rightarrow> 'r response \<times> 's" where
  "deleteTeacher db ident s =
     (case findByPk db Teacher ident [] s of
        (Inl err, s1) \<Rightarrow> (\<lparr>status = 500, body = errorBody err\<rparr>, s1)
      | (Inr None, s1) \<Rightarrow> (\<lparr>status = 404, body = messageBody ''Not found''\<rparr>, s1)
      | (Inr (Some teacher), s1) \<Rightarrow>
          (case destroy db Teacher teacher s1 of
             (Inl err, s2) \<Rightarrow> (\<lparr>status = 500, body = errorBody err\<rparr>, s2)
           | (Inr _, s2) \<Rightarrow> (\<lparr>status = 200, body = messageBody ''Deleted''\<rparr>, s2)))"

section \<open>The handlers by entity and by action\<close>

text \<open>
  Each controller module exports the same five handlers for its entity. The functions
  below select a handler by the entity's model, so that a statement can range over the
  three modules.
\<close>

fun listLocals_of :: "model \<Rightarrow> query \<Rightarrow> exception + listLocals" where
  "listLocals_of Course = getAllCourses_locals"
| "listLocals_of Student = getAllStudents_locals"
| "listLocals_of Teacher = getAllTeachers_locals"

fun getAll ::
    "model \<Rightarrow> ('s, 'r) persistence \<Rightarrow> query \<Rightarrow> 's \<Rightarrow> (exception + 'r response) \<times> 's" where
  "getAll Course = getAllCourses"
| "getAll Student = getAllStudents"
| "getAll Teacher = getAllTeachers"

datatype action = GetById | Update fields | Delete

fun handle ::
    "model \<Rightarrow> action \<Rightarrow> ('s, 'r) persistence \<Rightarrow> string \<Rightarrow> 's \<Rightarrow> 'r response \<times> 's" where
  "handle Course GetById db ident = getCourseById db ident"
| "handle Student GetById db ident = getStudentById db ident"
| "handle Teacher GetById db ident = getTeacherById db ident"
| "handle Course (Update reqBody) db ident = updateCourse db ident reqBody"
| "handle Student (Update reqBody) db ident = updateStudent db ident reqBody"
| "handle Teacher (Update reqBody) db ident = updateTeacher db ident reqBody"
| "handle Course Delete db ident = deleteCourse db ident"
| "handle Student Delete db ident = deleteStudent db ident"
| "handle Teacher Delete db ident = deleteTeacher db ident"



section \<open>The specification's terms\<close>

text \<open>
  The envelope as the specification writes it:
  \<open>{total: totalCount, page, totalPages, data}\<close> with
  \<open>totalPages = ceiling(totalCount / limit)\<close>, over integers.
\<close>

definition envelope :: "int \<Rightarrow> int \<Rightarrow> int \<Rightarrow> 'r list \<Rightarrow> 'r json" where
  "envelope totalCount pageNo perPage rows =
     JObject
       [(''total'', JNumber (Finite (of_int totalCount))),
        (''page'', JNumber (Finite (of_int pageNo))),
        (''totalPages'',
           JNumber (Finite (of_int \<lceil>(of_int totalCount :: rat) / of_int perPage\<rceil>))),
        (''data'', JEntities rows)]"

text \<open>
  The relations a client may ask for, per entity, as an ordered list of token and
  related model; and the specification's \<open>relationsToInclude\<close>: the models of the
  allow-list, in its order, whose token is among the comma-separated tokens of
  \<open>populate\<close> (no token when \<open>populate\<close> is absent).
\<close>

fun allowedRelations :: "model \<Rightarrow> (string \<times> model) list" where
  "allowedRelations Course = [(''teacher'', Teacher), (''student'', Student)]"
| "allowedRelations Student = [(''teacher'', Teacher), (''courses'', Course)]"
| "allowedRelations Teacher = [(''students'', Student), (''courses'', Course)]"

definition relationsToInclude :: "(string \<times> model) list \<Rightarrow> string option \<Rightarrow> model list" where
  "relationsToInclude allowed populate =
     (let tokens = (case populate of None \<Rightarrow> [] | Some p \<Rightarrow> split_comma p)
      in map snd (filter (\<lambda>(token, related). token \<in> set tokens) allowed))"

text \<open>
  The primary-key lookup a handler starts with: get-by-id includes a fixed pair of
  related models, update and delete pass no options.
\<close>

fun lookupIncludes :: "model \<Rightarrow> action \<Rightarrow> model list" where
  "lookupIncludes Course GetById = [Student, Teacher]"
| "lookupIncludes Student GetById = [Course, Teacher]"
| "lookupIncludes Teacher GetById = [Course, Student]"
| "lookupIncludes _ _ = []"

definition pkLookup ::
    "('s, 'r) persistence \<Rightarrow> model \<Rightarrow> action \<Rightarrow> string \<Rightarrow> 's \<Rightarrow> (string + 'r option) \<times> 's" where
  "pkLookup db m a ident s = findByPk db m ident (lookupIncludes m a) s"

text \<open>
  The error the persistence layer throws while a handler runs, if any: by the lookup,
  or by the \<open>update\<close> or \<open>destroy\<close> of the instance found.
\<close>

definition thrown ::
    "('s, 'r) persistence \<Rightarrow> model \<Rightarrow> action \<Rightarrow> string \<Rightarrow> 's \<Rightarrow> string option" where
  "thrown db m a ident s =
     (case pkLookup db m a ident s of
        (Inl msg, _) \<Rightarrow> Some msg
      | (Inr None, _) \<Rightarrow> None
      | (Inr (Some inst), s1) \<Rightarrow>
          (case a of
             GetById \<Rightarrow> None
           | Update reqBody \<Rightarrow>
               (case update db m inst reqBody s1 of (Inl msg, _) \<Rightarrow> Some msg | (Inr _, _) \<Rightarrow> None)
           | Delete \<Rightarrow>
               (case destroy db m inst s1 of (Inl msg, _) \<Rightarrow> Some msg | (Inr _, _) \<Rightarrow> None)))"

section \<open>A persistence layer in memory\<close>

text \<open>
  Modelled from the spec: the persistence layer (\<open>db\<close>, the module
  \<open>models/index.js\<close> and the object-relational mapper behind it) is not among the
  sources. The specification names its calls: \<open>count()\<close>,
  \<open>findAll({limit, offset, order, include})\<close>, \<open>findByPk(id, {include})\<close> and the
  instance methods \<open>update(fields)\<close> and \<open>destroy()\<close>. Here each entity type has a table
  of instances with a primary key, a creation time and fields; \<open>count\<close> is the size of
  the table, \<open>findAll\<close> orders by creation time, skips \<open>offset\<close> instances and takes
  \<open>limit\<close> (a limit or offset that is negative or no finite number is an error of the
  database), \<open>findByPk\<close> returns the instance with the key or nothing, \<open>update\<close>
  overwrites fields and \<open>destroy\<close> removes the instance. Related instances are not
  materialised.
\<close>

record entity =
  pk :: string
  createdAt :: nat
  attrs :: fields

record store =
  courses :: "entity list"
  students :: "entity list"
  teachers :: "entity list"

fun table :: "model \<Rightarrow> store \<Rightarrow> entity list" where
  "table Course s = courses s"
| "table Student s = students s"
| "table Teacher s = teachers s"

fun set_table :: "model \<Rightarrow> entity list \<Rightarrow> store \<Rightarrow> store" where
  "set_table Course es s = s\<lparr>courses := es\<rparr>"
| "set_table Student es s = s\<lparr>students := es\<rparr>"
| "set_table Teacher es s = s\<lparr>teachers := es\<rparr>"

text \<open>The number of rows that a limit or an offset stands for, if it stands for one.\<close>

fun rowCount :: "number \<Rightarrow> nat option" where
  "rowCount (Finite x) = (if 0 \<le> x then Some (nat \<lfloor>x\<rfloor>) else None)"
| "rowCount _ = None"

definition memory_findAll :: "model \<Rightarrow> findOptions \<Rightarrow> store \<Rightarrow> (string + entity list) \<times> store" where
  "memory_findAll m opts s =
     (case (rowCount (opt_limit opts), rowCount (opt_offset opts)) of
        (Some taken, Some skipped) \<Rightarrow>
          (let ascending = sort_key createdAt (table m s);
               ordered = (if map snd (opt_order opts) = [''DESC''] then rev ascending else ascending)
           in (Inr (take taken (drop skipped ordered)), s))
      | _ \<Rightarrow> (Inl ''LIMIT and OFFSET must be non-negative numbers'', s))"

definition memory_update :: "model \<Rightarrow> entity \<Rightarrow> fields \<Rightarrow> store \<Rightarrow> (string + entity) \<times> store" where
  "memory_update m inst reqBody s =
     (let inst' = inst\<lparr>attrs := reqBody @ filter (\<lambda>(k, v). k \<notin> set (map fst reqBody)) (attrs inst)\<rparr>
      in (Inr inst',
          set_table m (map (\<lambda>e. if pk e = pk inst then inst' else e) (table m s)) s))"

definition memory :: "(store, entity) persistence" where
  "memory =
     \<lparr> count = (\<lambda>m s. (Inr (Finite (of_nat (length (table m s)))), s)),
       findAll = memory_findAll,
       findByPk = (\<lambda>m ident included s. (Inr (find (\<lambda>e. pk e = ident) (table m s)), s)),
       update = memory_update,
       destroy = (\<lambda>m inst s. (Inr (), set_table m (filter (\<lambda>e. pk e \<noteq> pk inst) (table m s)) s)) \<rparr>"

text \<open>A persistence layer that cannot be reached: every call throws the same error.\<close>

definition unreachable :: "string \<Rightarrow> (unit, entity) persistence" where
  "unreachable msg =
     \<lparr> count = (\<lambda>m s. (Inl msg, s)),
       findAll = (\<lambda>m opts s. (Inl msg, s)),
       findByPk = (\<lambda>m ident included s. (Inl msg, s)),
       update = (\<lambda>m inst reqBody s. (Inl msg, s)),
       destroy = (\<lambda>m inst s. (Inl msg, s)) \<rparr>"


text \<open>A fixture: two courses, two students, one teacher.\<close>

definition fixture :: store where
  "fixture =
     \<lparr> courses =
         [\<lparr>pk = ''1'', createdAt = 10, attrs = [(''title'', ''Logic'')]\<rparr>,
          \<lparr>pk = ''2'', createdAt = 20, attrs = [(''title'', ''Algebra'')]\<rparr>],
       students =
         [\<lparr>pk = ''1'', createdAt = 10, attrs = [(''name'', ''Ada'')]\<rparr>,
          \<lparr>pk = ''2'', createdAt = 20, attrs = [(''name'', ''Alan'')]\<rparr>],
       teachers =
         [\<lparr>pk = ''1'', createdAt = 5, attrs = [(''name'', ''Emmy''), (''department'', ''Maths'')]\<rparr>] \<rparr>"

section \<open>Facts about numbers\<close>

lemma bitlen_powi_bounds:
  assumes "0 < a"
  shows "(2::rat) powi (bitlen a - 1) \<le> of_int a" and "of_int a < (2::rat) powi bitlen a"
proof -
  from assms have b: "2 ^ nat (bitlen a - 1) \<le> a" "a < 2 ^ nat (bitlen a)"
    using bitlen_bounds by blast+
  from assms have pos: "1 \<le> bitlen a"
    by (metis bitlen_eq_zero_iff bitlen_nonneg less_le not_less zless_imp_add1_zle zero_less_one_class.zero_less_one add_0)
  have "(2::rat) powi (bitlen a - 1) = of_int (2 ^ nat (bitlen a - 1))"
    using pos by (simp add: power_int_def)
  also have "\<dots> \<le> of_int a"
    using b(1) by (simp only: of_int_le_iff)
  finally show "(2::rat) powi (bitlen a - 1) \<le> of_int a" .
  have "(of_int a :: rat) < of_int (2 ^ nat (bitlen a))"
    using b(2) by (simp only: of_int_less_iff)
  also have "\<dots> = 2 powi bitlen a"
    using pos by (simp add: power_int_def)
  finally show "of_int a < (2::rat) powi bitlen a" .
qed

lemma exponentOf_bounds:
  assumes "0 < x"
  shows "2 powi exponentOf x \<le> x" and "x < 2 powi (exponentOf x + 1)"
proof -
  obtain a b where q: "quotient_of x = (a, b)"
    by (cases "quotient_of x")
  then have b: "0 < b" and x: "x = of_int a / of_int b"
    by (simp_all add: quotient_of_denom_pos quotient_of_div)
  with assms have a: "0 < a"
    by (simp add: zero_less_divide_iff)
  define k where "k = bitlen a - bitlen b"
  have bpos: "(0::rat) < of_int b" using b by simp
  have lo: "(2::rat) powi (k - 1) * of_int b < of_int a"
  proof -
    have "(2::rat) powi (k - 1) * of_int b < 2 powi (k - 1) * 2 powi bitlen b"
      using bitlen_powi_bounds(2) [OF b] by (simp add: zero_less_power_int)
    also have "\<dots> = 2 powi (bitlen a - 1)"
      by (simp add: k_def power_int_add [symmetric])
    also have "\<dots> \<le> of_int a"
      by (rule bitlen_powi_bounds(1) [OF a])
    finally show ?thesis .
  qed
  have hi: "(of_int a :: rat) < 2 powi (k + 1) * of_int b"
  proof -
    have "(of_int a :: rat) < 2 powi bitlen a"
      by (rule bitlen_powi_bounds(2) [OF a])
    also have "\<dots> = 2 powi (k + 1) * 2 powi (bitlen b - 1)"
      by (simp add: k_def power_int_add [symmetric])
    also have "\<dots> \<le> 2 powi (k + 1) * of_int b"
      using bitlen_powi_bounds(1) [OF b] by (simp add: zero_less_power_int)
    finally show ?thesis .
  qed
  have lo': "2 powi (k - 1) < x" and hi': "x < 2 powi (k + 1)"
    using lo hi bpos by (simp_all add: x pos_less_divide_eq pos_divide_less_eq)
  have e: "exponentOf x = (if 2 powi k \<le> x then k else k - 1)"
    by (simp add: exponentOf_def q k_def)
  show "2 powi exponentOf x \<le> x"
    using lo' by (simp add: e)
  show "x < 2 powi (exponentOf x + 1)"
    using hi' by (auto simp add: e)
qed

lemma roundHalfEven_of_int [simp]: "roundHalfEven (of_int n) = n"
  by (simp add: roundHalfEven_def)

lemma roundHalfEven_le:
  assumes "x \<le> of_int j"
  shows "roundHalfEven x \<le> j"
proof (cases "x = of_int j")
  case True
  then show ?thesis by simp
next
  case False
  with assms have "x < of_int j" by simp
  then have "\<lfloor>x\<rfloor> < j"
    by (simp add: floor_less_iff)
  then show ?thesis
    by (auto simp add: roundHalfEven_def Let_def)
qed

lemma roundHalfEven_gt:
  assumes "of_int j + 1 / 2 < x"
  shows "j < roundHalfEven x"
proof -
  from assms have "of_int j \<le> x" by simp
  then have f: "j \<le> \<lfloor>x\<rfloor>"
    by (simp add: le_floor_iff)
  show ?thesis
  proof (cases "j = \<lfloor>x\<rfloor>")
    case True
    with assms have "1 / 2 < x - of_int \<lfloor>x\<rfloor>" by simp
    then show ?thesis
      using True by (simp add: roundHalfEven_def Let_def)
  next
    case False
    with f have "j < \<lfloor>x\<rfloor>" by simp
    then show ?thesis
      by (auto simp add: roundHalfEven_def Let_def)
  qed
qed

lemma powi_less_iff:
  fixes i j :: int
  shows "(2::rat) powi i < 2 powi j \<longleftrightarrow> i < j"
  by (metis linorder_less_linear numeral_One numeral_less_iff
    order_less_imp_not_less power_int_strict_increasing
    semiring_norm(76))

lemma powi_le_iff:
  fixes i j :: int
  shows "(2::rat) powi i \<le> 2 powi j \<longleftrightarrow> i \<le> j"
  using powi_less_iff [of j i] by (simp add: not_less [symmetric])

lemma powi_nat: "0 \<le> j \<Longrightarrow> (2::rat) powi j = of_int (2 ^ nat j)"
  by (simp add: power_int_def)

lemma powi_pos [simp]: "(0::rat) < 2 powi j"
  by (simp add: zero_less_power_int)

lemma divide_powi: "x / (2::rat) powi j = x * 2 powi (- j)"
  by (simp add: power_int_minus field_simps)

lemma nearest_of_int:
  assumes "0 < n" and "n \<le> 2 ^ 53"
  shows "nearest (of_int n) = of_int n"
proof -
  define k where "k = exponentOf (of_int n)"
  have pos: "(0::rat) < of_int n" using assms by simp
  note bounds = exponentOf_bounds [OF pos, folded k_def]
  have "(1::rat) \<le> of_int n" using assms by simp
  with bounds(2) have "(2::rat) powi 0 < 2 powi (k + 1)" by simp
  then have k0: "0 \<le> k" by (simp only: powi_less_iff)
  have p53: "(2::rat) powi 53 = of_int (2 ^ 53)"
    using powi_nat [of 53] by simp
  have "(of_int n :: rat) \<le> 2 powi 53"
    unfolding p53 using assms(2) by (simp only: of_int_le_iff)
  with bounds(1) have "(2::rat) powi k \<le> 2 powi 53" by simp
  then have k53: "k \<le> 53" by (simp only: powi_le_iff)
  have e: "max (k - 52) (- 1074) = k - 52" using k0 by simp
  show ?thesis
  proof (cases "k \<le> 52")
    case True
    then have "(2::rat) powi (- (k - 52)) = of_int (2 ^ nat (52 - k))"
      by (simp add: powi_nat)
    then have "of_int n / (2::rat) powi (k - 52) = of_int (n * 2 ^ nat (52 - k))"
      by (simp add: divide_powi)
    then have "roundHalfEven (of_int n / 2 powi (k - 52)) = n * 2 ^ nat (52 - k)"
      by (simp only: roundHalfEven_of_int)
    moreover have "of_int (n * 2 ^ nat (52 - k)) * (2::rat) powi (k - 52) = of_int n"
    proof -
      have s: "(2::rat) powi (52 - k) * 2 powi (k - 52) = 1"
        by (simp add: power_int_add [symmetric])
      have a: "(of_int (n * 2 ^ nat (52 - k)) :: rat) = of_int n * 2 powi (52 - k)"
        using True by (simp add: powi_nat)
      have "of_int (n * 2 ^ nat (52 - k)) * (2::rat) powi (k - 52) =
          of_int n * (2 powi (52 - k) * 2 powi (k - 52))"
        by (simp only: a mult.assoc)
      also have "\<dots> = of_int n"
        by (simp only: s mult_1_right)
      finally show ?thesis .
    qed
    ultimately show ?thesis
      by (simp add: nearest_def k_def [symmetric] e Let_def)
  next
    case False
    with k53 have k: "k = 53" by simp
    with bounds(1) have "(2::rat) powi 53 \<le> of_int n" by simp
    then have "2 ^ 53 \<le> n"
      unfolding p53 by (simp only: of_int_le_iff)
    with assms(2) have n: "n = 2 ^ 53" by simp
    have "of_int n / (2::rat) powi (k - 52) = of_int (2 ^ 52)"
      by (simp add: n k)
    then have "roundHalfEven (of_int n / 2 powi (k - 52)) = 2 ^ 52"
      by (simp only: roundHalfEven_of_int)
    moreover have "of_int (2 ^ 52) * (2::rat) powi (k - 52) = of_int n"
      by (simp add: n k)
    ultimately show ?thesis
      by (simp add: nearest_def k_def [symmetric] e Let_def)
  qed
qed

lemma fl_of_int:
  assumes "\<bar>n\<bar> \<le> 2 ^ 53"
  shows "fl (of_int n) = Finite (of_int n)"
proof (cases "n = 0")
  case True
  then show ?thesis by (simp add: fl_def)
next
  case False
  then have "0 < \<bar>n\<bar>" by simp
  from nearest_of_int [OF this assms] have v: "nearest \<bar>of_int n\<bar> = of_int \<bar>n\<bar>"
    by simp
  have "(of_int \<bar>n\<bar> :: rat) \<le> of_int (2 ^ 53)"
    using assms by (simp only: of_int_le_iff)
  also have "\<dots> < 2 ^ 1024" by simp
  finally have "\<not> (2 ^ 1024 \<le> (of_int \<bar>n\<bar> :: rat))" by simp
  moreover have "sgn (of_int n :: rat) * of_int \<bar>n\<bar> = of_int n"
    by (simp add: sgn_if)
  ultimately show ?thesis
    using False by (simp add: fl_def v Let_def del: of_int_abs)
qed

lemma roundHalfEven_ge:
  assumes "of_int j \<le> x"
  shows "j \<le> roundHalfEven x"
proof -
  from assms have "j \<le> \<lfloor>x\<rfloor>"
    by (simp add: le_floor_iff)
  then show ?thesis
    by (auto simp add: roundHalfEven_def Let_def)
qed

lemma p53: "(2::rat) powi 53 = of_int (2 ^ 53)"
  using powi_nat [of 53] by simp

lemma nearest_ceiling:
  assumes a: "0 < a" "a \<le> 2 ^ 53" and b: "0 < b" "b \<le> 2 ^ 53"
  shows "\<lceil>nearest (of_int a / of_int b)\<rceil> = \<lceil>of_int a / of_int b :: rat\<rceil>"
    and "nearest (of_int a / of_int b) \<le> 2 ^ 53"
proof -
  define q :: rat where "q = of_int a / of_int b"
  define N where "N = \<lceil>q\<rceil>"
  define k where "k = exponentOf q"
  have bpos: "(0::rat) < of_int b" and apos: "(0::rat) < of_int a"
    using a b by simp_all
  then have qpos: "0 < q" by (simp add: q_def)
  note bounds = exponentOf_bounds [OF qpos, folded k_def]
  have a53: "(of_int a :: rat) \<le> 2 powi 53" and b53: "(of_int b :: rat) \<le> 2 powi 53"
    unfolding p53 using a b by (simp_all only: of_int_le_iff)
  have "(1::rat) \<le> of_int b" using b by simp
  then have "q \<le> of_int a"
    using apos by (simp add: q_def field_simps)
  with a53 have q53: "q \<le> 2 powi 53" by simp
  with bounds(1) have "(2::rat) powi k \<le> 2 powi 53" by simp
  then have k53: "k \<le> 53" by (simp only: powi_le_iff)
  have "(1::rat) \<le> of_int a" using a by simp
  then have "1 / of_int b \<le> q"
    using bpos by (simp add: q_def field_simps)
  moreover have "(2::rat) powi (- 53) \<le> 1 / of_int b"
    using b53 bpos by (simp add: power_int_minus field_simps)
  ultimately have "(2::rat) powi (- 53) < 2 powi (k + 1)"
    using bounds(2) by simp
  then have "- 53 < k + 1" by (simp only: powi_less_iff)
  then have km: "- 53 \<le> k" by simp
  have e: "max (k - 52) (- 1074) = k - 52" using km by simp
  have N: "of_int N - 1 < q" "q \<le> of_int N"
    unfolding N_def by linarith+
  have Npos: "0 < N" using qpos N(2) by (simp add: N_def)
  have "of_int N - 1 < (of_int (2 ^ 53) :: rat)"
    using N(1) q53 unfolding p53 by simp
  then have "N - 1 < 2 ^ 53"
    by (metis of_int_1 of_int_diff of_int_less_iff)
  then have N53: "N \<le> 2 ^ 53" by simp
  have main: "of_int N - 1 < nearest q \<and> nearest q \<le> of_int N"
  proof (cases "q = of_int N")
    case True
    with nearest_of_int [OF Npos N53] show ?thesis by simp
  next
    case False
    with N(2) have qN: "q < of_int N" by simp
    have k52: "k \<le> 52"
    proof (rule ccontr)
      assume "\<not> k \<le> 52"
      with k53 have "k = 53" by simp
      with bounds(1) q53 have "q = of_int (2 ^ 53)"
        unfolding p53 by simp
      with qN have "2 ^ 53 < N"
        by (simp only: of_int_less_iff)
      with N53 show False by simp
    qed
    define t where "t = nat (52 - k)"
    have T: "(2::rat) powi (52 - k) = of_int (2 ^ t)"
      using k52 by (simp add: t_def powi_nat)
    have scaled: "q / 2 powi (k - 52) = q * of_int (2 ^ t)"
      using T by (simp add: divide_powi)
    have unscale: "(of_int (2 ^ t) :: rat) * 2 powi (k - 52) = 1"
      unfolding T [symmetric] by (simp add: power_int_add [symmetric])
    let ?m = "roundHalfEven (q * of_int (2 ^ t))"
    have v: "nearest q = of_int ?m * 2 powi (k - 52)"
      by (simp add: nearest_def k_def [symmetric] e scaled Let_def)
    have "q * of_int (2 ^ t) \<le> of_int (N * 2 ^ t)"
      using N(2) by (simp add: mult_right_mono)
    then have "?m \<le> N * 2 ^ t"
      by (rule roundHalfEven_le)
    then have "(of_int ?m :: rat) \<le> of_int (N * 2 ^ t)"
      by (simp only: of_int_le_iff)
    then have "of_int ?m * (2::rat) powi (k - 52) \<le> of_int (N * 2 ^ t) * 2 powi (k - 52)"
      by (rule mult_right_mono) simp
    also have "\<dots> = of_int N * (of_int (2 ^ t) * 2 powi (k - 52))"
      by (simp only: of_int_mult mult.assoc)
    also have "\<dots> = of_int N"
      by (simp only: unscale mult_1_right)
    finally have upper: "nearest q \<le> of_int N"
      by (simp only: v)
    have "b * (N - 1) < a"
    proof -
      have "of_int (N - 1) < q" using N(1) by simp
      then have "(of_int (N - 1) :: rat) * of_int b < of_int a"
        using bpos by (simp add: q_def pos_less_divide_eq)
      then have "(of_int ((N - 1) * b) :: rat) < of_int a"
        by (simp only: of_int_mult)
      then show ?thesis
        by (simp only: of_int_less_iff mult.commute)
    qed
    then have "b * (N - 1) + 1 \<le> a" by simp
    then have "(of_int (b * (N - 1) + 1) :: rat) \<le> of_int a"
      by (simp only: of_int_le_iff)
    then have "(of_int b * (of_int N - 1) + 1 :: rat) \<le> of_int a"
      by simp
    then have "(of_int b * (of_int N - 1) + 1) / of_int b \<le> (of_int a :: rat) / of_int b"
      using bpos by (simp only: divide_right_mono less_imp_le)
    moreover have "(of_int b * (of_int N - 1) + 1) / of_int b = (of_int N - 1) + 1 / (of_int b :: rat)"
      using bpos by (simp add: add_divide_distrib)
    ultimately have gap: "(of_int N - 1) + 1 / of_int b \<le> q"
      by (simp only: q_def)
    have bsmall: "(of_int b :: rat) < 2 * of_int (2 ^ t)"
    proof (rule ccontr)
      assume "\<not> (of_int b :: rat) < 2 * of_int (2 ^ t)"
      then have big: "2 * (2::rat) powi (52 - k) \<le> of_int b"
        by (simp add: T)
      have "(2::rat) powi 53 = 2 * 2 powi (52 - k) * 2 powi k"
        by (simp add: power_int_add [symmetric] mult.assoc)
      also have "\<dots> \<le> of_int b * 2 powi k"
        using big by (simp add: mult_right_mono)
      finally have le1: "(2::rat) powi 53 \<le> of_int b * 2 powi k" .
      have "of_int b * 2 powi k \<le> of_int b * q"
        using bounds(1) bpos by (simp add: mult_left_mono)
      also have "\<dots> = of_int a"
        using bpos by (simp add: q_def)
      finally have le2: "of_int b * (2::rat) powi k \<le> of_int a" .
      from le1 le2 a53 have eq: "of_int b * (2::rat) powi k = of_int a"
        and full: "of_int b * (2::rat) powi k = 2 powi 53"
        by simp_all
      from eq have qk: "q = 2 powi k"
        using bpos by (simp add: q_def field_simps)
      have "of_int b * (2::rat) powi k \<le> 2 powi 53 * 2 powi k"
        using b53 by (simp add: mult_right_mono)
      with full have "(2::rat) powi 53 * 2 powi 0 \<le> 2 powi 53 * 2 powi k"
        by simp
      then have "(2::rat) powi 0 \<le> 2 powi k"
        by (simp only: mult_le_cancel_left_pos powi_pos)
      then have "0 \<le> k"
        by (simp only: powi_le_iff)
      with qk have "q = of_int (2 ^ nat k)"
        by (simp add: powi_nat)
      then have "q = of_int \<lceil>q\<rceil>"
        by (simp only: ceiling_of_int)
      with False show False
        by (simp add: N_def)
    qed
    have half: "1 / 2 < of_int (2 ^ t) / (of_int b :: rat)"
      using bsmall bpos by (simp add: pos_less_divide_eq)
    have "of_int ((N - 1) * 2 ^ t) + 1 / 2 < (of_int N - 1) * of_int (2 ^ t) + of_int (2 ^ t) / (of_int b :: rat)"
      using half by simp
    also have "\<dots> = ((of_int N - 1) + 1 / of_int b) * of_int (2 ^ t)"
      by (simp add: distrib_right)
    also have "\<dots> \<le> q * of_int (2 ^ t)"
      using gap by (rule mult_right_mono) simp
    finally have "(N - 1) * 2 ^ t < ?m"
      by (rule roundHalfEven_gt)
    then have "(N - 1) * 2 ^ t + 1 \<le> ?m"
      by simp
    then have "(of_int ((N - 1) * 2 ^ t + 1) :: rat) \<le> of_int ?m"
      by (simp only: of_int_le_iff)
    then have "of_int ((N - 1) * 2 ^ t + 1) * (2::rat) powi (k - 52) \<le> of_int ?m * 2 powi (k - 52)"
      by (rule mult_right_mono) simp
    moreover have "of_int ((N - 1) * 2 ^ t + 1) * (2::rat) powi (k - 52) =
        (of_int N - 1) * (of_int (2 ^ t) * 2 powi (k - 52)) + 2 powi (k - 52)"
      by (simp add: distrib_right mult.assoc)
    ultimately have "(of_int N - 1) + (2::rat) powi (k - 52) \<le> nearest q"
      by (simp only: v unscale mult_1_right)
    then have "of_int N - 1 < nearest q"
      using powi_pos [of "k - 52"] by linarith
    with upper show ?thesis
      by simp
  qed
  then have "\<lceil>nearest q\<rceil> = N"
    by (simp add: ceiling_unique)
  then show "\<lceil>nearest (of_int a / of_int b)\<rceil> = \<lceil>of_int a / of_int b :: rat\<rceil>"
    by (simp add: q_def N_def)
  have "nearest q \<le> of_int (2 ^ 53)"
    using main N53 by (meson of_int_le_iff order_trans)
  then show "nearest (of_int a / of_int b) \<le> 2 ^ 53"
    by (simp add: q_def)
qed

lemma fl_overflow:
  assumes "2 ^ 1024 \<le> n"
  shows "fl (of_int n) = PosInfinity"
proof -
  define x :: rat where "x = of_int n"
  define k where "k = exponentOf x"
  have p1024: "(2::rat) powi 1024 = of_int (2 ^ 1024)"
    using powi_nat [of 1024] by simp
  have big: "(2::rat) powi 1024 \<le> x"
    unfolding p1024 x_def using assms by (simp only: of_int_le_iff)
  then have pos: "0 < x"
    using powi_pos [of 1024] by linarith
  note bounds = exponentOf_bounds [OF pos, folded k_def]
  from big bounds(2) have "(2::rat) powi 1024 < 2 powi (k + 1)" by simp
  then have "1024 < k + 1" by (simp only: powi_less_iff)
  then have k: "1024 \<le> k" by simp
  then have e: "max (k - 52) (- 1074) = k - 52" by simp
  have "(2::rat) powi (52 + (k - 52)) = 2 powi 52 * 2 powi (k - 52)"
    by (rule power_int_add) simp
  then have split: "(2::rat) powi k = 2 powi 52 * 2 powi (k - 52)"
    by simp
  have p52: "(2::rat) powi 52 = of_int (2 ^ 52)"
    using powi_nat [of 52] by simp
  have "(2::rat) powi 52 \<le> x / 2 powi (k - 52)"
    using bounds(1) by (simp add: split pos_le_divide_eq)
  then have "2 ^ 52 \<le> roundHalfEven (x / 2 powi (k - 52))"
    unfolding p52 by (rule roundHalfEven_ge)
  then have "(of_int (2 ^ 52) :: rat) \<le> of_int (roundHalfEven (x / 2 powi (k - 52)))"
    by (simp only: of_int_le_iff)
  then have "of_int (2 ^ 52) * (2::rat) powi (k - 52) \<le>
      of_int (roundHalfEven (x / 2 powi (k - 52))) * 2 powi (k - 52)"
    by (rule mult_right_mono) simp
  then have "(2::rat) powi k \<le> nearest x"
    by (simp only: nearest_def k_def [symmetric] e Let_def split p52)
  moreover have "(2::rat) powi 1024 \<le> 2 powi k"
    using k by (simp only: powi_le_iff)
  ultimately have "(2::rat) powi 1024 \<le> nearest x" by simp
  then have "(2::rat) ^ 1024 \<le> nearest \<bar>x\<bar>"
    using pos by (simp add: p1024)
  then show ?thesis
    using pos by (simp add: fl_def x_def [symmetric] Let_def)
qed

text \<open>The operators are exact on integers as long as the result is at most \<open>2^53\<close>.\<close>

lemma js_minus_exact:
  assumes "\<bar>a - b\<bar> \<le> 2 ^ 53"
  shows "js_minus (Finite (of_int a)) (Finite (of_int b)) = Finite (of_int (a - b))"
  using fl_of_int [OF assms] by simp

lemma js_times_exact:
  assumes "\<bar>a * b\<bar> \<le> 2 ^ 53"
  shows "js_times (Finite (of_int a)) (Finite (of_int b)) = Finite (of_int (a * b))"
  using fl_of_int [OF assms] by simp

text \<open>
  \<open>Math.ceil(a / b)\<close> is the ceiling of the exact quotient for integers \<open>a\<close> and \<open>b\<close> with
  \<open>0 \<le> a \<le> 2^53\<close> and \<open>1 \<le> b \<le> 2^53\<close>.
\<close>

lemma ceil_divide_exact:
  assumes "0 \<le> a" and "a \<le> 2 ^ 53" and "1 \<le> b" and "b \<le> 2 ^ 53"
  shows "Math_ceil (js_divide (Finite (of_int a)) (Finite (of_int b))) =
      Finite (of_int \<lceil>(of_int a :: rat) / of_int b\<rceil>)"
proof (cases "a = 0")
  case True
  then show ?thesis
    using assms by (simp add: fl_def)
next
  case False
  with assms have a: "0 < a" and b: "0 < b" by simp_all
  define q :: rat where "q = of_int a / of_int b"
  have qpos: "0 < q"
    using a b by (simp add: q_def)
  note n = nearest_ceiling [OF a assms(2) b assms(4), folded q_def]
  have "nearest q \<le> 2 ^ 53" by (rule n(2))
  also have "\<dots> < (2::rat) ^ 1024" by simp
  finally have small: "\<not> 2 ^ 1024 \<le> nearest \<bar>q\<bar>"
    using qpos by simp
  have "fl q = Finite (nearest q)"
    using qpos small by (simp add: fl_def Let_def)
  moreover have "(of_int b :: rat) \<noteq> 0" using b by simp
  ultimately show ?thesis
    by (simp add: q_def [symmetric] n(1))
qed

text \<open>What \<open>parseInt\<close> returns, from the integer read.\<close>

lemma parseInt_NaN: "mathInt s = None \<Longrightarrow> parseInt s = NaN"
  by (simp add: parseInt_def)

lemma parseInt_exact:
  "mathInt s = Some n \<Longrightarrow> \<bar>n\<bar> \<le> 2 ^ 53 \<Longrightarrow> parseInt s = Finite (of_int n)"
  by (simp add: parseInt_def fl_of_int)

lemma parseInt_overflow:
  "mathInt s = Some n \<Longrightarrow> 2 ^ 1024 \<le> n \<Longrightarrow> parseInt s = PosInfinity"
  by (simp add: parseInt_def fl_overflow)

lemma mathInt_examples:
  "mathInt ''3'' = Some 3" "mathInt ''5'' = Some 5" "mathInt ''-1'' = Some (- 1)"
  "mathInt ''10'' = Some 10" "mathInt ''1'' = Some 1" "mathInt ''0'' = Some 0"
  "mathInt ''-5'' = Some (- 5)" "mathInt ''-0'' = Some 0" "mathInt ''2'' = Some 2"
  "mathInt ''undefined'' = None" "mathInt ''abc'' = None" "mathInt [] = None"
  "mathInt ''94906268'' = Some 94906268" "mathInt ''94906267'' = Some 94906267"
  by (simp_all add: mathInt_def isWhiteSpace_def digitValue_def)

lemma parseInt_examples:
  "parseInt ''3'' = Finite 3" "parseInt ''5'' = Finite 5" "parseInt ''-1'' = Finite (- 1)"
  "parseInt ''10'' = Finite 10" "parseInt ''1'' = Finite 1" "parseInt ''0'' = Finite 0"
  "parseInt ''-5'' = Finite (- 5)" "parseInt ''-0'' = Finite 0" "parseInt ''2'' = Finite 2"
  "parseInt ''undefined'' = NaN" "parseInt ''abc'' = NaN" "parseInt [] = NaN"
  "parseInt ''94906268'' = Finite 94906268" "parseInt ''94906267'' = Finite 94906267"
  using parseInt_exact [OF mathInt_examples(1)] parseInt_exact [OF mathInt_examples(2)]
    parseInt_exact [OF mathInt_examples(3)] parseInt_exact [OF mathInt_examples(4)]
    parseInt_exact [OF mathInt_examples(5)] parseInt_exact [OF mathInt_examples(6)]
    parseInt_exact [OF mathInt_examples(7)] parseInt_exact [OF mathInt_examples(8)]
    parseInt_exact [OF mathInt_examples(9)]
    parseInt_exact [OF mathInt_examples(13)] parseInt_exact [OF mathInt_examples(14)]
  by (simp_all add: parseInt_NaN mathInt_examples)

text \<open>A string of \<open>n\<close> nines reads as \<open>10^n - 1\<close>; four hundred of them are an infinity.\<close>

lemma digitValue_nine: "digitValue CHR ''9'' = Some 9"
  by (simp add: digitValue_def)

lemma radixDigits_nines: "radixDigits 10 (replicate n CHR ''9'') = replicate n 9"
  by (induction n) (simp_all add: digitValue_nine)

lemma foldl_nines:
  "int (foldl (\<lambda>n d. n * 10 + d) acc (replicate n 9)) = (int acc + 1) * 10 ^ n - 1"
  by (induction n arbitrary: acc) (simp_all add: algebra_simps)

lemma not_white_nine: "\<not> isWhiteSpace CHR ''9''"
  by (simp add: isWhiteSpace_def)

lemma mathInt_nines:
  assumes "2 \<le> n"
  shows "mathInt (replicate n CHR ''9'') = Some (10 ^ n - 1)"
proof -
  obtain k where n: "n = Suc (Suc k)"
    using assms by (metis Suc_le_D numeral_2_eq_2 Suc_le_mono)
  have "dropWhile isWhiteSpace (replicate n CHR ''9'') = replicate n CHR ''9''"
    by (simp add: n not_white_nine)
  moreover have "take 1 (replicate n CHR ''9'') = ''9''" "take 2 (replicate n CHR ''9'') = ''99''"
    by (simp_all add: n)
  moreover have "replicate n (9::nat) \<noteq> []"
    by (simp add: n)
  ultimately show ?thesis
    using foldl_nines [of 0 n]
    by (simp add: mathInt_def Let_def radixDigits_nines)
qed

lemma parseInt_400_nines: "parseInt (replicate 400 CHR ''9'') = PosInfinity"
proof -
  have "mathInt (replicate 400 CHR ''9'') = Some (10 ^ 400 - 1)"
    by (rule mathInt_nines) simp
  moreover have "(2::int) ^ 1024 \<le> 10 ^ 400 - 1"
    by simp
  ultimately show ?thesis
    by (rule parseInt_overflow)
qed

text \<open>The product of 94906267 with itself is odd and above \<open>2^53\<close>: it is rounded.\<close>

lemma fl_rounds_product: "fl 9007199515875289 = Finite 9007199515875288"
  by code_simp

section \<open>Facts about the handlers\<close>

lemmas locals_defs =
  getAllStudents_locals_def getAllCourses_locals_def getAllTeachers_locals_def

lemmas getAll_defs = getAllStudents_def getAllCourses_def getAllTeachers_def

lemmas getById_defs = getStudentById_def getCourseById_def getTeacherById_def

lemmas update_defs = updateStudent_def updateCourse_def updateTeacher_def

lemmas delete_defs = deleteStudent_def deleteCourse_def deleteTeacher_def

lemmas handler_defs = getById_defs update_defs delete_defs

lemmas memory_simps = memory_def memory_findAll_def memory_update_def fixture_def

text \<open>
  The locals of the three modules are computed alike, up to the allow-list of the
  relations.
\<close>

lemma listLocals_of_eq:
  "listLocals_of m q =
     (case ToString (q ''limit'') of
        Inl e \<Rightarrow> Inl e
      | Inr limitString \<Rightarrow>
     (case ToString (q ''page'') of
        Inl e \<Rightarrow> Inl e
      | Inr pageString \<Rightarrow>
     (case populateOf q of
        Inl e \<Rightarrow> Inl e
      | Inr populate \<Rightarrow>
          Inr \<lparr> limit = orDefault (parseInt limitString) (Finite 10),
                page = orDefault (parseInt pageString) (Finite 1),
                sort_dir = (if q ''sort'' = Some (QString ''desc'') then ''DESC'' else ''ASC''),
                includeModels =
                  map snd (filter (\<lambda>(token, related). token \<in> set populate)
                    (allowedRelations m)) \<rparr>)))"
  by (cases m) (simp_all add: locals_defs split: sum.splits)

lemma listLocals_of_Inr:
  assumes "listLocals_of m q = Inr l"
  obtains limitString pageString populate where
    "ToString (q ''limit'') = Inr limitString"
    "ToString (q ''page'') = Inr pageString"
    "populateOf q = Inr populate"
    "limit l = orDefault (parseInt limitString) (Finite 10)"
    "page l = orDefault (parseInt pageString) (Finite 1)"
    "sort_dir l = (if q ''sort'' = Some (QString ''desc'') then ''DESC'' else ''ASC'')"
    "includeModels l =
       map snd (filter (\<lambda>(token, related). token \<in> set populate) (allowedRelations m))"
  using assms unfolding listLocals_of_eq
  by (auto split: sum.splits)

text \<open>On a query of strings nothing throws.\<close>

lemma ToString_stringQuery:
  "ToString (stringQuery sq name) = Inr (case sq name of None \<Rightarrow> ''undefined'' | Some s \<Rightarrow> s)"
  by (simp add: ToString_def stringQuery_def split: option.split)

lemma populateOf_stringQuery:
  "populateOf (stringQuery sq) =
     Inr (case sq ''populate'' of None \<Rightarrow> [] | Some p \<Rightarrow> split_comma p)"
  by (simp add: populateOf_def stringQuery_def split: option.split)

lemma listLocals_of_stringQuery: "\<exists>l. listLocals_of m (stringQuery sq) = Inr l"
  by (simp add: listLocals_of_eq ToString_stringQuery populateOf_stringQuery)

lemma getAll_cong:
  assumes "listLocals_of m q = listLocals_of m q'"
  shows "getAll m db q s = getAll m db q' s"
  using assms by (cases m) (simp_all add: getAll_defs)

text \<open>The limit is never a falsy number.\<close>

lemma orDefault_truthy:
  assumes "d \<noteq> NaN" and "d \<noteq> Finite 0"
  shows "orDefault n d \<noteq> NaN" and "orDefault n d \<noteq> Finite 0"
  using assms by (auto simp add: orDefault_def)


text \<open>The answer of a list handler, by the outcomes of its steps.\<close>

lemma getAll_locals_throw:
  assumes "listLocals_of m q = Inl e"
  shows "getAll m db q s = (Inl e, s)"
  using assms by (cases m) (simp_all add: getAll_defs)

lemma getAll_count_throws:
  assumes "listLocals_of m q = Inr l" and "count db m s = (Inl msg, s1)"
  shows "getAll m db q s = (Inr \<lparr>status = 500, body = errorBody msg\<rparr>, s1)"
  using assms by (cases m) (simp_all add: getAll_defs)

lemma getAll_findAll_throws:
  assumes "listLocals_of m q = Inr l" and "count db m s = (Inr n, s1)"
    and "findAll db m (findAllOptions l) s1 = (Inl msg, s2)"
  shows "getAll m db q s = (Inr \<lparr>status = 500, body = errorBody msg\<rparr>, s2)"
  using assms by (cases m) (simp_all add: getAll_defs)


section \<open>Sorting\<close>

lemmas locals_eval = listLocals_of_eq ToString_def populateOf_def parseInt_examples orDefault_def

lemma p56: "parseInt ''5,6'' = Finite 5"
proof -
  have "mathInt ''5,6'' = Some 5"
    by (simp add: mathInt_def isWhiteSpace_def digitValue_def)
  from parseInt_exact [OF this] show ?thesis by simp
qed

lemma allowedRelations_distinct:
  "distinct (map fst (allowedRelations m))" "distinct (map snd (allowedRelations m))"
  by (cases m; simp)+

lemma listLocals_of_strings:
  "listLocals_of m (stringQuery sq) =
     Inr \<lparr> limit =
             orDefault (parseInt (case sq ''limit'' of None \<Rightarrow> ''undefined'' | Some s \<Rightarrow> s))
               (Finite 10),
           page =
             orDefault (parseInt (case sq ''page'' of None \<Rightarrow> ''undefined'' | Some s \<Rightarrow> s))
               (Finite 1),
           sort_dir = (if sq ''sort'' = Some ''desc'' then ''DESC'' else ''ASC''),
           includeModels = relationsToInclude (allowedRelations m) (sq ''populate'') \<rparr>"
  unfolding listLocals_of_eq ToString_stringQuery populateOf_stringQuery
  by (auto simp add: stringQuery_def relationsToInclude_def)

text \<open>
  Claim C5. For every value of the \<open>sort\<close> parameter and each of the three list
  handlers, the order passed to \<open>findAll\<close> is the single pair of the key \<open>createdAt\<close>
  and a direction; the direction is \<open>DESC\<close> exactly when the parameter is the string
  \<open>desc\<close>, and \<open>ASC\<close> for every other value: in particular for \<open>DESC\<close> and for an absent
  parameter. This holds of the options of every request that reaches \<open>findAll\<close>, and
  every query whose parameters are strings reaches it with such options.
\<close>

theorem sort_direction:
  "(\<forall>l. listLocals_of m q = Inr l \<longrightarrow>
      opt_order (findAllOptions l) =
        [(''createdAt'', if q ''sort'' = Some (QString ''desc'') then ''DESC'' else ''ASC'')])
   \<and> (\<exists>l. listLocals_of m (stringQuery sq) = Inr l
        \<and> opt_order (findAllOptions l) =
            [(''createdAt'', if sq ''sort'' = Some ''desc'' then ''DESC'' else ''ASC'')])
   \<and> (\<exists>l. listLocals_of m [''sort'' \<mapsto> QString ''desc''] = Inr l
        \<and> opt_order (findAllOptions l) = [(''createdAt'', ''DESC'')])
   \<and> (\<exists>l. listLocals_of m [''sort'' \<mapsto> QString ''DESC''] = Inr l
        \<and> opt_order (findAllOptions l) = [(''createdAt'', ''ASC'')])
   \<and> (\<exists>l. listLocals_of m Map.empty = Inr l
        \<and> opt_order (findAllOptions l) = [(''createdAt'', ''ASC'')])"
proof (intro conjI allI impI)
  fix l
  assume "listLocals_of m q = Inr l"
  then show "opt_order (findAllOptions l) =
      [(''createdAt'', if q ''sort'' = Some (QString ''desc'') then ''DESC'' else ''ASC'')]"
    by (elim listLocals_of_Inr) (simp add: findAllOptions_def)
next
  show "\<exists>l. listLocals_of m (stringQuery sq) = Inr l
        \<and> opt_order (findAllOptions l) =
            [(''createdAt'', if sq ''sort'' = Some ''desc'' then ''DESC'' else ''ASC'')]"
    by (simp add: listLocals_of_strings findAllOptions_def)
next
  show "\<exists>l. listLocals_of m [''sort'' \<mapsto> QString ''desc''] = Inr l
        \<and> opt_order (findAllOptions l) = [(''createdAt'', ''DESC'')]"
    by (simp add: locals_eval findAllOptions_def)
next
  show "\<exists>l. listLocals_of m [''sort'' \<mapsto> QString ''DESC''] = Inr l
        \<and> opt_order (findAllOptions l) = [(''createdAt'', ''ASC'')]"
    by (simp add: locals_eval findAllOptions_def)
next
  show "\<exists>l. listLocals_of m Map.empty = Inr l
        \<and> opt_order (findAllOptions l) = [(''createdAt'', ''ASC'')]"
    by (simp add: locals_eval findAllOptions_def)
qed

theorem sort_direction_witness:
  "listLocals_of Teacher [''sort'' \<mapsto> QString ''desc'', ''limit'' \<mapsto> QArray [QString ''5'', QString ''6'']] =
      Inr \<lparr>limit = Finite 5, page = Finite 1, sort_dir = ''DESC'', includeModels = []\<rparr>
   \<and> opt_order (findAllOptions
        \<lparr>limit = Finite 5, page = Finite 1, sort_dir = ''DESC'', includeModels = []\<rparr>) =
      [(''createdAt'', ''DESC'')]"
proof -
  have l: "listLocals_of Teacher
      [''sort'' \<mapsto> QString ''desc'', ''limit'' \<mapsto> QArray [QString ''5'', QString ''6'']] =
      Inr \<lparr>limit = Finite 5, page = Finite 1, sort_dir = ''DESC'', includeModels = []\<rparr>"
    by (simp add: locals_defs ToString_def populateOf_def parseInt_examples orDefault_def p56)
  with sort_direction [of Teacher
      "[''sort'' \<mapsto> QString ''desc'', ''limit'' \<mapsto> QArray [QString ''5'', QString ''6'']]"]
  show ?thesis
    by simp
qed

section \<open>Eager loading\<close>

lemma populateOf_Inr:
  assumes "populateOf q = Inr tokens"
  obtains p where "q ''populate'' = map_option QString p"
    and "tokens = (case p of None \<Rightarrow> [] | Some s \<Rightarrow> split_comma s)"
proof (cases "q ''populate''")
  case None
  with assms that [of None] show ?thesis
    by (simp add: populateOf_def)
next
  case (Some v)
  with assms that [of "Some s" for s] show ?thesis
    by (cases v) (auto simp add: populateOf_def)
qed

text \<open>
  Claim C4. For every populate string and each of the three entity types, the models
  a list handler includes are the specification's \<open>relationsToInclude\<close> over the
  entity's allow-list: none when \<open>populate\<close> is absent; exactly the models whose token
  is among the comma-separated tokens, so that any other token is dropped; in the
  order of the allow-list, whatever the order of the tokens; and each at most once.
  For students, \<open>teacher,bogus\<close> gives the teacher model, \<open>courses,teacher\<close> gives
  teacher before course, and \<open>courses,bogus,courses\<close> gives the course model once.
\<close>

theorem populate_relations:
  "(\<forall>l. listLocals_of m q = Inr l \<longrightarrow>
      (\<exists>p. q ''populate'' = map_option QString p
         \<and> includeModels l = relationsToInclude (allowedRelations m) p)
      \<and> (q ''populate'' = None \<longrightarrow> includeModels l = [])
      \<and> (\<exists>tokens. populateOf q = Inr tokens
         \<and> set (includeModels l) =
             {related. \<exists>token \<in> set tokens. (token, related) \<in> set (allowedRelations m)})
      \<and> subseq (includeModels l) (map snd (allowedRelations m))
      \<and> distinct (includeModels l))
   \<and> (\<exists>l. listLocals_of m (stringQuery sq) = Inr l
        \<and> includeModels l = relationsToInclude (allowedRelations m) (sq ''populate''))
   \<and> (\<exists>l. getAllStudents_locals [''populate'' \<mapsto> QString ''teacher,bogus''] = Inr l
        \<and> includeModels l = [Teacher])
   \<and> (\<exists>l. getAllStudents_locals [''populate'' \<mapsto> QString ''courses,teacher''] = Inr l
        \<and> includeModels l = [Teacher, Course])
   \<and> (\<exists>l. getAllStudents_locals [''populate'' \<mapsto> QString ''courses,bogus,courses''] = Inr l
        \<and> includeModels l = [Course])"
proof (intro conjI allI impI)
  fix l
  assume "listLocals_of m q = Inr l"
  then obtain tokens where tokens: "populateOf q = Inr tokens"
    and inc: "includeModels l =
      map snd (filter (\<lambda>(token, related). token \<in> set tokens) (allowedRelations m))"
    by (elim listLocals_of_Inr)
  from tokens obtain p where p: "q ''populate'' = map_option QString p"
    and split: "tokens = (case p of None \<Rightarrow> [] | Some s \<Rightarrow> split_comma s)"
    by (rule populateOf_Inr)
  from inc split have rel: "includeModels l = relationsToInclude (allowedRelations m) p"
    by (simp add: relationsToInclude_def)
  with p show "\<exists>p. q ''populate'' = map_option QString p
         \<and> includeModels l = relationsToInclude (allowedRelations m) p"
    by blast
  { assume "q ''populate'' = None"
    with p have "p = None" by simp
    with rel show "includeModels l = []"
      by (simp add: relationsToInclude_def) }
  have "set (includeModels l) =
      {related. \<exists>token \<in> set tokens. (token, related) \<in> set (allowedRelations m)}"
    unfolding inc by force
  with tokens show "\<exists>tokens. populateOf q = Inr tokens
         \<and> set (includeModels l) =
             {related. \<exists>token \<in> set tokens. (token, related) \<in> set (allowedRelations m)}"
    by blast
  show "subseq (includeModels l) (map snd (allowedRelations m))"
    by (simp add: inc subseq_map)
  show "distinct (includeModels l)"
    by (simp add: inc distinct_map_filter allowedRelations_distinct)
next
  show "\<exists>l. listLocals_of m (stringQuery sq) = Inr l
        \<and> includeModels l = relationsToInclude (allowedRelations m) (sq ''populate'')"
    by (simp add: listLocals_of_strings)
next
  show "\<exists>l. getAllStudents_locals [''populate'' \<mapsto> QString ''teacher,bogus''] = Inr l
        \<and> includeModels l = [Teacher]"
    by (simp add: locals_defs ToString_def populateOf_def)
next
  show "\<exists>l. getAllStudents_locals [''populate'' \<mapsto> QString ''courses,teacher''] = Inr l
        \<and> includeModels l = [Teacher, Course]"
    by (simp add: locals_defs ToString_def populateOf_def)
next
  show "\<exists>l. getAllStudents_locals [''populate'' \<mapsto> QString ''courses,bogus,courses''] = Inr l
        \<and> includeModels l = [Course]"
    by (simp add: locals_defs ToString_def populateOf_def)
qed

theorem populate_relations_witness:
  "listLocals_of Teacher [''sort'' \<mapsto> QString ''desc''] =
      Inr \<lparr>limit = Finite 10, page = Finite 1, sort_dir = ''DESC'', includeModels = []\<rparr>
   \<and> [''sort'' \<mapsto> QString ''desc''] ''populate'' = None
   \<and> includeModels
        \<lparr>limit = Finite 10, page = Finite 1, sort_dir = ''DESC'', includeModels = []\<rparr> = []
   \<and> subseq
        (includeModels
          \<lparr>limit = Finite 10, page = Finite 1, sort_dir = ''DESC'', includeModels = []\<rparr>)
        (map snd (allowedRelations Teacher))"
proof -
  have "listLocals_of Teacher [''sort'' \<mapsto> QString ''desc''] =
      Inr \<lparr>limit = Finite 10, page = Finite 1, sort_dir = ''DESC'', includeModels = []\<rparr>"
    by (simp add: locals_defs ToString_def populateOf_def parseInt_examples orDefault_def)
  with populate_relations [of Teacher "[''sort'' \<mapsto> QString ''desc'']"]
  show ?thesis
    by simp
qed

text \<open>
  Claim C10. The tokens are fixed per handler and differ between them. The course list
  handler includes the teacher model exactly for the token \<open>teacher\<close>, the student
  model exactly for the singular token \<open>student\<close>, and nothing else; the student list
  handler includes the teacher model exactly for \<open>teacher\<close>, the course model exactly
  for \<open>courses\<close>, and nothing else; the teacher list handler includes the student model
  exactly for \<open>students\<close>, the course model exactly for \<open>courses\<close>, and nothing else.
  So \<open>populate=students\<close> includes nothing for courses, and the student model for
  teachers.
\<close>

theorem populate_tokens:
  "(\<forall>l. getAllCourses_locals q = Inr l \<longrightarrow>
      (\<exists>tokens. populateOf q = Inr tokens
         \<and> (Teacher \<in> set (opt_include (findAllOptions l)) \<longleftrightarrow> ''teacher'' \<in> set tokens)
         \<and> (Student \<in> set (opt_include (findAllOptions l)) \<longleftrightarrow> ''student'' \<in> set tokens)
         \<and> Course \<notin> set (opt_include (findAllOptions l))))
   \<and> (\<forall>l. getAllStudents_locals q = Inr l \<longrightarrow>
      (\<exists>tokens. populateOf q = Inr tokens
         \<and> (Teacher \<in> set (opt_include (findAllOptions l)) \<longleftrightarrow> ''teacher'' \<in> set tokens)
         \<and> (Course \<in> set (opt_include (findAllOptions l)) \<longleftrightarrow> ''courses'' \<in> set tokens)
         \<and> Student \<notin> set (opt_include (findAllOptions l))))
   \<and> (\<forall>l. getAllTeachers_locals q = Inr l \<longrightarrow>
      (\<exists>tokens. populateOf q = Inr tokens
         \<and> (Student \<in> set (opt_include (findAllOptions l)) \<longleftrightarrow> ''students'' \<in> set tokens)
         \<and> (Course \<in> set (opt_include (findAllOptions l)) \<longleftrightarrow> ''courses'' \<in> set tokens)
         \<and> Teacher \<notin> set (opt_include (findAllOptions l))))
   \<and> (\<exists>l. getAllCourses_locals (stringQuery sq) = Inr l)
   \<and> (\<exists>l. getAllStudents_locals (stringQuery sq) = Inr l)
   \<and> (\<exists>l. getAllTeachers_locals (stringQuery sq) = Inr l)
   \<and> (\<exists>l. getAllCourses_locals [''populate'' \<mapsto> QString ''students''] = Inr l
        \<and> opt_include (findAllOptions l) = [])
   \<and> (\<exists>l. getAllTeachers_locals [''populate'' \<mapsto> QString ''students''] = Inr l
        \<and> opt_include (findAllOptions l) = [Student])"
proof (intro conjI allI impI)
  fix l
  assume "getAllCourses_locals q = Inr l"
  then have "listLocals_of Course q = Inr l" by simp
  then obtain tokens where "populateOf q = Inr tokens"
    and "includeModels l =
      map snd (filter (\<lambda>(token, related). token \<in> set tokens) (allowedRelations Course))"
    by (elim listLocals_of_Inr)
  then show "\<exists>tokens. populateOf q = Inr tokens
         \<and> (Teacher \<in> set (opt_include (findAllOptions l)) \<longleftrightarrow> ''teacher'' \<in> set tokens)
         \<and> (Student \<in> set (opt_include (findAllOptions l)) \<longleftrightarrow> ''student'' \<in> set tokens)
         \<and> Course \<notin> set (opt_include (findAllOptions l))"
    by (simp add: findAllOptions_def)
next
  fix l
  assume "getAllStudents_locals q = Inr l"
  then have "listLocals_of Student q = Inr l" by simp
  then obtain tokens where "populateOf q = Inr tokens"
    and "includeModels l =
      map snd (filter (\<lambda>(token, related). token \<in> set tokens) (allowedRelations Student))"
    by (elim listLocals_of_Inr)
  then show "\<exists>tokens. populateOf q = Inr tokens
         \<and> (Teacher \<in> set (opt_include (findAllOptions l)) \<longleftrightarrow> ''teacher'' \<in> set tokens)
         \<and> (Course \<in> set (opt_include (findAllOptions l)) \<longleftrightarrow> ''courses'' \<in> set tokens)
         \<and> Student \<notin> set (opt_include (findAllOptions l))"
    by (simp add: findAllOptions_def)
next
  fix l
  assume "getAllTeachers_locals q = Inr l"
  then have "listLocals_of Teacher q = Inr l" by simp
  then obtain tokens where "populateOf q = Inr tokens"
    and "includeModels l =
      map snd (filter (\<lambda>(token, related). token \<in> set tokens) (allowedRelations Teacher))"
    by (elim listLocals_of_Inr)
  then show "\<exists>tokens. populateOf q = Inr tokens
         \<and> (Student \<in> set (opt_include (findAllOptions l)) \<longleftrightarrow> ''students'' \<in> set tokens)
         \<and> (Course \<in> set (opt_include (findAllOptions l)) \<longleftrightarrow> ''courses'' \<in> set tokens)
         \<and> Teacher \<notin> set (opt_include (findAllOptions l))"
    by (simp add: findAllOptions_def)
next
  show "\<exists>l. getAllCourses_locals (stringQuery sq) = Inr l"
    using listLocals_of_stringQuery [of Course sq] by simp
  show "\<exists>l. getAllStudents_locals (stringQuery sq) = Inr l"
    using listLocals_of_stringQuery [of Student sq] by simp
  show "\<exists>l. getAllTeachers_locals (stringQuery sq) = Inr l"
    using listLocals_of_stringQuery [of Teacher sq] by simp
  show "\<exists>l. getAllCourses_locals [''populate'' \<mapsto> QString ''students''] = Inr l
        \<and> opt_include (findAllOptions l) = []"
    by (simp add: locals_defs ToString_def populateOf_def findAllOptions_def)
  show "\<exists>l. getAllTeachers_locals [''populate'' \<mapsto> QString ''students''] = Inr l
        \<and> opt_include (findAllOptions l) = [Student]"
    by (simp add: locals_defs ToString_def populateOf_def findAllOptions_def)
qed

theorem populate_tokens_witness:
  "getAllCourses_locals [''populate'' \<mapsto> QString ''student,teacher''] =
      Inr \<lparr>limit = Finite 10, page = Finite 1, sort_dir = ''ASC'',
           includeModels = [Teacher, Student]\<rparr>
   \<and> populateOf [''populate'' \<mapsto> QString ''student,teacher''] = Inr [''student'', ''teacher'']
   \<and> getAllStudents_locals [''populate'' \<mapsto> QString ''courses''] =
      Inr \<lparr>limit = Finite 10, page = Finite 1, sort_dir = ''ASC'', includeModels = [Course]\<rparr>
   \<and> getAllTeachers_locals [''populate'' \<mapsto> QString ''students''] =
      Inr \<lparr>limit = Finite 10, page = Finite 1, sort_dir = ''ASC'', includeModels = [Student]\<rparr>"
  using populate_tokens [of "[''populate'' \<mapsto> QString ''student,teacher'']"]
  by (simp add: locals_defs ToString_def populateOf_def parseInt_examples orDefault_def)

section \<open>Pagination\<close>

lemma fl_zero [simp]: "fl 0 = Finite 0"
  by (simp add: fl_def)

lemma locals_page_upd:
  assumes "ToString (q ''page'') = Inr pageString"
    and "orDefault (parseInt pageString) (Finite 1) = orDefault (parseInt v) (Finite 1)"
  shows "listLocals_of m (q(''page'' \<mapsto> QString v)) = listLocals_of m q"
proof -
  have "ToString ((q(''page'' \<mapsto> QString v)) ''page'') = Inr v"
    and "ToString ((q(''page'' \<mapsto> QString v)) ''limit'') = ToString (q ''limit'')"
    and "populateOf (q(''page'' \<mapsto> QString v)) = populateOf q"
    and "(q(''page'' \<mapsto> QString v)) ''sort'' = q ''sort''"
    by (simp_all add: ToString_def populateOf_def)
  then show ?thesis
    unfolding listLocals_of_eq using assms by (simp split: sum.splits)
qed

lemma locals_limit_upd:
  assumes "ToString (q ''limit'') = Inr limitString"
    and "orDefault (parseInt limitString) (Finite 10) = orDefault (parseInt v) (Finite 10)"
  shows "listLocals_of m (q(''limit'' \<mapsto> QString v)) = listLocals_of m q"
proof -
  have "ToString ((q(''limit'' \<mapsto> QString v)) ''limit'') = Inr v"
    and "ToString ((q(''limit'' \<mapsto> QString v)) ''page'') = ToString (q ''page'')"
    and "populateOf (q(''limit'' \<mapsto> QString v)) = populateOf q"
    and "(q(''limit'' \<mapsto> QString v)) ''sort'' = q ''sort''"
    by (simp_all add: ToString_def populateOf_def)
  then show ?thesis
    unfolding listLocals_of_eq using assms by (simp split: sum.splits)
qed

text \<open>
  Claim C6, as amended. For every query and each list handler, the offset passed to
  \<open>findAll\<close> is the product \<open>(page - 1) * limit\<close> of the normalised page and limit as
  JavaScript computes it, in double precision. It is the exact integer
  \<open>(page - 1) * limit\<close> whenever page and limit are integers and neither \<open>page - 1\<close> nor
  the product exceeds \<open>2^53\<close> in magnitude. Page \<open>3\<close> with limit \<open>5\<close> gives offset 10. A
  page that parses to a number other than zero is kept as it is, also when it is
  negative: page \<open>-1\<close> with limit \<open>10\<close> gives page \<open>-1\<close> and offset \<open>-20\<close>. (The claim as
  stated, the exact product for every query, fails above \<open>2^53\<close>: see the
  counterexample below.)
\<close>

theorem offset_formula:
  "(\<forall>l. listLocals_of m q = Inr l \<longrightarrow>
      opt_offset (findAllOptions l) = js_times (js_minus (page l) (Finite 1)) (limit l)
      \<and> (\<forall>P L. page l = Finite (of_int P) \<and> limit l = Finite (of_int L)
            \<and> \<bar>P - 1\<bar> \<le> 2 ^ 53 \<and> \<bar>(P - 1) * L\<bar> \<le> 2 ^ 53 \<longrightarrow>
            opt_offset (findAllOptions l) = Finite (of_int ((P - 1) * L)))
      \<and> (\<forall>pageString. ToString (q ''page'') = Inr pageString
            \<and> parseInt pageString \<noteq> NaN \<and> parseInt pageString \<noteq> Finite 0 \<longrightarrow>
            page l = parseInt pageString))
   \<and> (\<exists>l. listLocals_of m [''page'' \<mapsto> QString ''3'', ''limit'' \<mapsto> QString ''5''] = Inr l
        \<and> opt_offset (findAllOptions l) = Finite 10)
   \<and> (\<exists>l. listLocals_of m [''page'' \<mapsto> QString ''-1'', ''limit'' \<mapsto> QString ''10''] = Inr l
        \<and> page l = Finite (- 1)
        \<and> opt_offset (findAllOptions l) = Finite (- 20))"
proof (intro conjI allI impI)
  fix l
  assume l: "listLocals_of m q = Inr l"
  show "opt_offset (findAllOptions l) = js_times (js_minus (page l) (Finite 1)) (limit l)"
    by (simp add: findAllOptions_def)
  { fix P L
    assume safe: "page l = Finite (of_int P) \<and> limit l = Finite (of_int L)
            \<and> \<bar>P - 1\<bar> \<le> 2 ^ 53 \<and> \<bar>(P - 1) * L\<bar> \<le> 2 ^ 53"
    then have "js_minus (page l) (Finite 1) = Finite (of_int (P - 1))"
      using js_minus_exact [of P 1] by simp
    moreover have "js_times (Finite (of_int (P - 1))) (Finite (of_int L)) =
        Finite (of_int ((P - 1) * L))"
      using safe by (intro js_times_exact) simp
    ultimately show "opt_offset (findAllOptions l) = Finite (of_int ((P - 1) * L))"
      using safe by (simp add: findAllOptions_def) }
  { fix pageString
    assume "ToString (q ''page'') = Inr pageString
            \<and> parseInt pageString \<noteq> NaN \<and> parseInt pageString \<noteq> Finite 0"
    with l show "page l = parseInt pageString"
      by (elim listLocals_of_Inr) (simp add: orDefault_def) }
next
  have "js_minus (Finite 3) (Finite 1) = Finite 2" "js_times (Finite 2) (Finite 5) = Finite 10"
    using js_minus_exact [of 3 1] js_times_exact [of 2 5] by simp_all
  then show "\<exists>l. listLocals_of m [''page'' \<mapsto> QString ''3'', ''limit'' \<mapsto> QString ''5''] = Inr l
        \<and> opt_offset (findAllOptions l) = Finite 10"
    by (simp add: locals_eval findAllOptions_def)
next
  have "js_minus (Finite (- 1)) (Finite 1) = Finite (- 2)"
    "js_times (Finite (- 2)) (Finite 10) = Finite (- 20)"
    using js_minus_exact [of "- 1" 1] js_times_exact [of "- 2" 10] by simp_all
  then show "\<exists>l. listLocals_of m [''page'' \<mapsto> QString ''-1'', ''limit'' \<mapsto> QString ''10''] = Inr l
        \<and> page l = Finite (- 1)
        \<and> opt_offset (findAllOptions l) = Finite (- 20)"
    by (simp add: locals_eval findAllOptions_def)
qed

theorem offset_formula_witness:
  "listLocals_of Course [''page'' \<mapsto> QString ''-1'', ''limit'' \<mapsto> QString ''10''] =
      Inr \<lparr>limit = Finite 10, page = Finite (- 1), sort_dir = ''ASC'', includeModels = []\<rparr>
   \<and> \<bar>(- 1 :: int) - 1\<bar> \<le> 2 ^ 53 \<and> \<bar>((- 1 :: int) - 1) * 10\<bar> \<le> 2 ^ 53
   \<and> opt_offset (findAllOptions
        \<lparr>limit = Finite 10, page = Finite (- 1), sort_dir = ''ASC'', includeModels = []\<rparr>) =
      Finite (- 20)"
proof -
  let ?l = "\<lparr>limit = Finite 10, page = Finite (- 1), sort_dir = ''ASC'', includeModels = []\<rparr>"
  have l: "listLocals_of Course [''page'' \<mapsto> QString ''-1'', ''limit'' \<mapsto> QString ''10''] = Inr ?l"
    by (simp add: locals_defs ToString_def populateOf_def parseInt_examples orDefault_def)
  have "page ?l = Finite (of_int (- 1)) \<and> limit ?l = Finite (of_int 10)
      \<and> \<bar>(- 1 :: int) - 1\<bar> \<le> 2 ^ 53 \<and> \<bar>((- 1 :: int) - 1) * 10\<bar> \<le> 2 ^ 53"
    by simp
  with l offset_formula [of Course "[''page'' \<mapsto> QString ''-1'', ''limit'' \<mapsto> QString ''10'']"]
  have "opt_offset (findAllOptions ?l) = Finite (of_int ((- 1 - 1) * 10))"
    by blast
  with l show ?thesis
    by simp
qed

theorem offset_rounded_counterexample:
  "listLocals_of Student
      [''page'' \<mapsto> QString ''94906268'', ''limit'' \<mapsto> QString ''94906267''] =
      Inr \<lparr>limit = Finite 94906267, page = Finite 94906268, sort_dir = ''ASC'',
           includeModels = []\<rparr>
   \<and> opt_offset (findAllOptions
        \<lparr>limit = Finite 94906267, page = Finite 94906268, sort_dir = ''ASC'',
         includeModels = []\<rparr>) = Finite 9007199515875288
   \<and> (94906268 - 1) * 94906267 = (9007199515875289 :: int)"
proof -
  have "js_minus (Finite 94906268) (Finite 1) = Finite 94906267"
    using js_minus_exact [of 94906268 1] by simp
  moreover have "js_times (Finite 94906267) (Finite 94906267) = Finite 9007199515875288"
    by (simp add: fl_rounds_product)
  ultimately show ?thesis
    by (simp add: locals_defs ToString_def populateOf_def parseInt_examples orDefault_def
        findAllOptions_def)
qed

text \<open>
  Claim C8, as amended. When the \<open>page\<close> parameter fails to parse as an integer or
  parses to zero (and so when it is absent), each list handler uses page 1 and answers
  as it does for \<open>page=1\<close>, whatever the persistence layer; the offset is then 0
  whenever the limit in use is finite. (The claim as stated, offset 0 for every such
  query, fails when the limit is infinite: see the counterexample below.)
\<close>

theorem page_fallback:
  "(\<forall>l pageString. listLocals_of m q = Inr l \<and> ToString (q ''page'') = Inr pageString
        \<and> (parseInt pageString = NaN \<or> parseInt pageString = Finite 0) \<longrightarrow>
      page l = Finite 1
      \<and> (\<forall>x. limit l = Finite x \<longrightarrow> opt_offset (findAllOptions l) = Finite 0)
      \<and> getAll m db q s = getAll m db (q(''page'' \<mapsto> QString ''1'')) s)
   \<and> (\<forall>l. listLocals_of m q = Inr l \<and> q ''page'' = None \<longrightarrow>
        page l = Finite 1
        \<and> (\<forall>x. limit l = Finite x \<longrightarrow> opt_offset (findAllOptions l) = Finite 0))
   \<and> (\<exists>l. listLocals_of m (stringQuery sq) = Inr l)"
proof -
  have zero: "opt_offset (findAllOptions l) = Finite 0"
    if "page l = Finite 1" and "limit l = Finite x" for l x
    using that by (simp add: findAllOptions_def)
  have falls: "page l = Finite 1"
    if "listLocals_of m q = Inr l" and "ToString (q ''page'') = Inr pageString"
      and "parseInt pageString = NaN \<or> parseInt pageString = Finite 0" for l pageString
    using that by (elim listLocals_of_Inr) (auto simp add: orDefault_def)
  show ?thesis
  proof (intro conjI allI impI)
    fix l pageString
    assume a: "listLocals_of m q = Inr l \<and> ToString (q ''page'') = Inr pageString
        \<and> (parseInt pageString = NaN \<or> parseInt pageString = Finite 0)"
    then show one: "page l = Finite 1"
      using falls by blast
    { fix x assume "limit l = Finite x"
      with one show "opt_offset (findAllOptions l) = Finite 0" by (rule zero) }
    from a have ts: "ToString (q ''page'') = Inr pageString"
      by simp
    from a have "orDefault (parseInt pageString) (Finite 1) = orDefault (parseInt ''1'') (Finite 1)"
      by (auto simp add: orDefault_def parseInt_examples)
    with ts have "listLocals_of m (q(''page'' \<mapsto> QString ''1'')) = listLocals_of m q"
      by (rule locals_page_upd)
    then show "getAll m db q s = getAll m db (q(''page'' \<mapsto> QString ''1'')) s"
      by (intro getAll_cong) simp
  next
    fix l
    assume a: "listLocals_of m q = Inr l \<and> q ''page'' = None"
    then have "ToString (q ''page'') = Inr ''undefined''"
      by (simp add: ToString_def)
    with a show one: "page l = Finite 1"
      using falls [of l "''undefined''"] by (simp add: parseInt_examples)
    { fix x assume "limit l = Finite x"
      with one show "opt_offset (findAllOptions l) = Finite 0" by (rule zero) }
  next
    show "\<exists>l. listLocals_of m (stringQuery sq) = Inr l"
      by (rule listLocals_of_stringQuery)
  qed
qed

theorem page_fallback_witness:
  "listLocals_of Student [''page'' \<mapsto> QString ''abc'', ''limit'' \<mapsto> QString ''5''] =
      Inr \<lparr>limit = Finite 5, page = Finite 1, sort_dir = ''ASC'', includeModels = []\<rparr>
   \<and> ToString ([''page'' \<mapsto> QString ''abc'', ''limit'' \<mapsto> QString ''5''] ''page'') = Inr ''abc''
   \<and> parseInt ''abc'' = NaN
   \<and> opt_offset (findAllOptions
        \<lparr>limit = Finite 5, page = Finite 1, sort_dir = ''ASC'', includeModels = []\<rparr>) = Finite 0
   \<and> listLocals_of Teacher [''limit'' \<mapsto> QString ''5''] =
      Inr \<lparr>limit = Finite 5, page = Finite 1, sort_dir = ''ASC'', includeModels = []\<rparr>
   \<and> [''limit'' \<mapsto> QString ''5''] ''page'' = None"
proof -
  let ?l = "\<lparr>limit = Finite 5, page = Finite 1, sort_dir = ''ASC'', includeModels = []\<rparr>"
  have l: "listLocals_of Student [''page'' \<mapsto> QString ''abc'', ''limit'' \<mapsto> QString ''5''] = Inr ?l"
    and t: "listLocals_of Teacher [''limit'' \<mapsto> QString ''5''] = Inr ?l"
    by (simp_all add: locals_defs ToString_def populateOf_def parseInt_examples orDefault_def)
  have s: "ToString ([''page'' \<mapsto> QString ''abc'', ''limit'' \<mapsto> QString ''5''] ''page'') = Inr ''abc''"
    by (simp add: ToString_def)
  have n: "parseInt ''abc'' = NaN" by (simp add: parseInt_examples)
  from l s n page_fallback [of Student "[''page'' \<mapsto> QString ''abc'', ''limit'' \<mapsto> QString ''5'']"
      memory fixture]
  have "\<forall>x. limit ?l = Finite x \<longrightarrow> opt_offset (findAllOptions ?l) = Finite 0"
    by blast
  then have "opt_offset (findAllOptions ?l) = Finite 0" by simp
  with l t s n show ?thesis by simp
qed

theorem page_offset_counterexample:
  "[''limit'' \<mapsto> QString (replicate 400 CHR ''9'')] ''page'' = None
   \<and> listLocals_of Student [''limit'' \<mapsto> QString (replicate 400 CHR ''9'')] =
      Inr \<lparr>limit = PosInfinity, page = Finite 1, sort_dir = ''ASC'', includeModels = []\<rparr>
   \<and> opt_offset (findAllOptions
        \<lparr>limit = PosInfinity, page = Finite 1, sort_dir = ''ASC'', includeModels = []\<rparr>) = NaN"
  by (simp add: locals_defs ToString_def populateOf_def parseInt_examples parseInt_400_nines
      orDefault_def findAllOptions_def)

section \<open>The limit\<close>

text \<open>
  When the \<open>limit\<close> parameter fails to parse as an integer or parses to zero (and so
  when it is absent), a list handler that gets past its first lines uses limit 10:
  the local is 10, the limit passed to \<open>findAll\<close> is 10, and the handler answers as it
  does for \<open>limit=10\<close>, whatever the persistence layer.
\<close>

lemma limit_fallback:
  "(\<forall>l limitString. listLocals_of m q = Inr l \<and> ToString (q ''limit'') = Inr limitString
        \<and> (parseInt limitString = NaN \<or> parseInt limitString = Finite 0) \<longrightarrow>
      limit l = Finite 10
      \<and> opt_limit (findAllOptions l) = Finite 10
      \<and> getAll m db q s = getAll m db (q(''limit'' \<mapsto> QString ''10'')) s)
   \<and> (\<forall>l. listLocals_of m q = Inr l \<and> q ''limit'' = None \<longrightarrow> limit l = Finite 10)
   \<and> (\<exists>l. listLocals_of m (stringQuery sq) = Inr l)"
proof -
  have falls: "limit l = Finite 10"
    if "listLocals_of m q = Inr l" and "ToString (q ''limit'') = Inr limitString"
      and "parseInt limitString = NaN \<or> parseInt limitString = Finite 0" for l limitString
    using that by (elim listLocals_of_Inr) (auto simp add: orDefault_def)
  show ?thesis
  proof (intro conjI allI impI)
    fix l limitString
    assume a: "listLocals_of m q = Inr l \<and> ToString (q ''limit'') = Inr limitString
        \<and> (parseInt limitString = NaN \<or> parseInt limitString = Finite 0)"
    then show ten: "limit l = Finite 10"
      using falls by blast
    then show "opt_limit (findAllOptions l) = Finite 10"
      by (simp add: findAllOptions_def)
    from a have ts: "ToString (q ''limit'') = Inr limitString"
      by simp
    from a have "orDefault (parseInt limitString) (Finite 10) =
        orDefault (parseInt ''10'') (Finite 10)"
      by (auto simp add: orDefault_def parseInt_examples)
    with ts have "listLocals_of m (q(''limit'' \<mapsto> QString ''10'')) = listLocals_of m q"
      by (rule locals_limit_upd)
    then show "getAll m db q s = getAll m db (q(''limit'' \<mapsto> QString ''10'')) s"
      by (intro getAll_cong) simp
  next
    fix l
    assume a: "listLocals_of m q = Inr l \<and> q ''limit'' = None"
    then have "ToString (q ''limit'') = Inr ''undefined''"
      by (simp add: ToString_def)
    with a show "limit l = Finite 10"
      using falls [of l "''undefined''"] by (simp add: parseInt_examples)
  next
    show "\<exists>l. listLocals_of m (stringQuery sq) = Inr l"
      by (rule listLocals_of_stringQuery)
  qed
qed

text \<open>
  Claim C7. The claim is that a malformed limit degrades to 10 and that normalisation
  never raises an error. The theorem evaluates the three list handlers on the query of
  \<open>?limit=abc&populate=courses&populate=teacher\<close>, whose \<open>populate\<close> is an array: the
  call of \<open>split\<close> on it, which stands before the \<open>try\<close> block, throws a \<open>TypeError\<close>; the
  handler sends no response and leaves the store as it was.
\<close>

theorem populate_array_throws:
  "getAllStudents memory
      [''limit'' \<mapsto> QString ''abc'', ''populate'' \<mapsto> QArray [QString ''courses'', QString ''teacher'']]
      fixture =
      (Inl (TypeError ''req.query.populate?.split is not a function''), fixture)
   \<and> getAllCourses memory
      [''limit'' \<mapsto> QString ''abc'', ''populate'' \<mapsto> QArray [QString ''courses'', QString ''teacher'']]
      fixture =
      (Inl (TypeError ''req.query.populate?.split is not a function''), fixture)
   \<and> getAllTeachers memory
      [''limit'' \<mapsto> QString ''abc'', ''populate'' \<mapsto> QArray [QString ''courses'', QString ''teacher'']]
      fixture =
      (Inl (TypeError ''req.query.populate?.split is not a function''), fixture)"
  by (simp add: getAll_defs locals_defs ToString_def populateOf_def)

section \<open>The envelope\<close>






text \<open>
  Claim C1. The claim is that the three list handlers send the same envelope
  \<open>{total, page, totalPages, data}\<close>, with the same members in the same order. The
  theorem evaluates the three handlers on the fixture with an empty query:
  \<open>getAllStudents\<close> and \<open>getAllTeachers\<close> send the specification's envelope, while
  \<open>getAllCourses\<close> sends the members in the order \<open>total\<close>, \<open>page\<close>, \<open>data\<close>, \<open>totalPages\<close>,
  which is not the envelope.
\<close>

theorem envelope_order_divergence:
  "fst (getAllCourses memory Map.empty fixture) =
      Inr \<lparr>status = 200,
           body = JObject
             [(''total'', JNumber (Finite 2)), (''page'', JNumber (Finite 1)),
              (''data'', JEntities (courses fixture)),
              (''totalPages'', JNumber (Finite 1))]\<rparr>
   \<and> fst (getAllStudents memory Map.empty fixture) =
      Inr \<lparr>status = 200, body = envelope 2 1 10 (students fixture)\<rparr>
   \<and> fst (getAllTeachers memory Map.empty fixture) =
      Inr \<lparr>status = 200, body = envelope 1 1 10 (teachers fixture)\<rparr>
   \<and> JObject
        [(''total'', JNumber (Finite 2)), (''page'', JNumber (Finite 1)),
         (''data'', JEntities (courses fixture)),
         (''totalPages'', JNumber (Finite 1))] \<noteq> envelope 2 1 10 (courses fixture)"
proof -
  have "\<lceil>(of_int 2 :: rat) / of_int 10\<rceil> = 1" "\<lceil>(of_int 1 :: rat) / of_int 10\<rceil> = 1"
    by (rule ceiling_unique; simp)+
  moreover have "Math_ceil (js_divide (Finite (of_int 2)) (Finite (of_int 10))) =
      Finite (of_int \<lceil>(of_int 2 :: rat) / of_int 10\<rceil>)"
    "Math_ceil (js_divide (Finite (of_int 1)) (Finite (of_int 10))) =
      Finite (of_int \<lceil>(of_int 1 :: rat) / of_int 10\<rceil>)"
    by (rule ceil_divide_exact; simp)+
  ultimately have pages: "Math_ceil (js_divide (Finite 2) (Finite 10)) = Finite 1"
    "Math_ceil (js_divide (Finite 1) (Finite 10)) = Finite 1"
    by (simp_all only: of_int_numeral of_int_1)
  have ceilings: "\<lceil>(1 :: rat) / 5\<rceil> = 1" "\<lceil>(1 :: rat) / 10\<rceil> = 1"
    by (rule ceiling_unique; simp)+
  show ?thesis
    by (simp add: getAll_defs locals_defs ToString_def populateOf_def parseInt_examples
        orDefault_def findAllOptions_def memory_simps envelope_def pages ceilings
        del: js_divide.simps)
qed

section \<open>Errors of the handlers of one entity\<close>

lemma handle_lookup_throws:
  assumes "pkLookup db m a ident s = (Inl msg, s1)"
  shows "handle m a db ident s = (\<lparr>status = 500, body = errorBody msg\<rparr>, s1)"
  using assms by (cases m; cases a) (simp_all add: handler_defs pkLookup_def)

lemma handle_lookup_nothing:
  assumes "pkLookup db m a ident s = (Inr None, s1)"
  shows "handle m a db ident s = (\<lparr>status = 404, body = messageBody ''Not found''\<rparr>, s1)"
  using assms by (cases m; cases a) (simp_all add: handler_defs pkLookup_def)

lemma handle_found_get:
  assumes "pkLookup db m GetById ident s = (Inr (Some inst), s1)"
  shows "handle m GetById db ident s = (\<lparr>status = 200, body = JEntity inst\<rparr>, s1)"
  using assms by (cases m) (simp_all add: handler_defs pkLookup_def)

lemma handle_found_update:
  assumes "pkLookup db m (Update reqBody) ident s = (Inr (Some inst), s1)"
  shows "handle m (Update reqBody) db ident s =
     (case update db m inst reqBody s1 of
        (Inl msg, s2) \<Rightarrow> (\<lparr>status = 500, body = errorBody msg\<rparr>, s2)
      | (Inr inst', s2) \<Rightarrow> (\<lparr>status = 200, body = JEntity inst'\<rparr>, s2))"
  using assms by (cases m) (simp_all add: handler_defs pkLookup_def)

lemma handle_found_delete:
  assumes "pkLookup db m Delete ident s = (Inr (Some inst), s1)"
  shows "handle m Delete db ident s =
     (case destroy db m inst s1 of
        (Inl msg, s2) \<Rightarrow> (\<lparr>status = 500, body = errorBody msg\<rparr>, s2)
      | (Inr u, s2) \<Rightarrow> (\<lparr>status = 200, body = messageBody ''Deleted''\<rparr>, s2))"
  using assms by (cases m) (simp_all add: handler_defs pkLookup_def)

text \<open>
  Claim C3. For every entity, identifier and persistence layer, the get-by-id, update
  and delete handlers answer 404 exactly when the primary-key lookup returns nothing,
  and then with the body \<open>{message: "Not found"}\<close>; they answer 500 with the body
  \<open>{error: msg}\<close> exactly when the persistence layer throws an error with message
  \<open>msg\<close> (in the lookup, the update or the destroy); they answer 200 in every other
  case, so that 404 and 500 are the only error outcomes.
\<close>

theorem error_outcomes:
  "(status (fst (handle m a db ident s)) = 404 \<longleftrightarrow> fst (pkLookup db m a ident s) = Inr None)
   \<and> (status (fst (handle m a db ident s)) = 404 \<longrightarrow>
        body (fst (handle m a db ident s)) = messageBody ''Not found'')
   \<and> (\<forall>msg. thrown db m a ident s = Some msg \<longleftrightarrow>
        status (fst (handle m a db ident s)) = 500
        \<and> body (fst (handle m a db ident s)) = errorBody msg)
   \<and> (status (fst (handle m a db ident s)) = 200 \<longleftrightarrow>
        fst (pkLookup db m a ident s) \<noteq> Inr None \<and> thrown db m a ident s = None)
   \<and> status (fst (handle m a db ident s)) \<in> {200, 404, 500}"
proof (cases "pkLookup db m a ident s")
  case looked: (Pair found s1)
  show ?thesis
  proof (cases found)
    case (Inl msg)
    with looked show ?thesis
      by (auto simp add: handle_lookup_throws [of db m a ident s msg s1] thrown_def errorBody_def)
  next
    case (Inr hit)
    show ?thesis
    proof (cases hit)
      case None
      with looked Inr show ?thesis
        by (auto simp add: handle_lookup_nothing [of db m a ident s s1] thrown_def)
    next
      case (Some inst)
      with looked Inr have h: "pkLookup db m a ident s = (Inr (Some inst), s1)"
        by simp
      show ?thesis
      proof (cases a)
        case GetById
        with h show ?thesis
          by (simp add: handle_found_get [of db m ident s inst s1] thrown_def)
      next
        case (Update reqBody)
        with h show ?thesis
          by (cases "update db m inst reqBody s1"; cases "fst (update db m inst reqBody s1)")
            (auto simp add: handle_found_update [of db m reqBody ident s inst s1] thrown_def
              errorBody_def)
      next
        case Delete
        with h show ?thesis
          by (cases "destroy db m inst s1"; cases "fst (destroy db m inst s1)")
            (auto simp add: handle_found_delete [of db m ident s inst s1] thrown_def
              errorBody_def)
      qed
    qed
  qed
qed

theorem error_outcomes_witness:
  "fst (pkLookup memory Student GetById ''9999'' fixture) = Inr None
   \<and> status (fst (handle Student GetById memory ''9999'' fixture)) = 404
   \<and> body (fst (handle Student GetById memory ''9999'' fixture)) = messageBody ''Not found''
   \<and> thrown (unreachable ''connection refused'') Teacher Delete ''1'' () =
       Some ''connection refused''
   \<and> status (fst (handle Teacher Delete (unreachable ''connection refused'') ''1'' ())) = 500
   \<and> body (fst (handle Teacher Delete (unreachable ''connection refused'') ''1'' ())) =
       errorBody ''connection refused''
   \<and> fst (pkLookup memory Course (Update [(''title'', ''Sets'')]) ''2'' fixture) \<noteq> Inr None
   \<and> thrown memory Course (Update [(''title'', ''Sets'')]) ''2'' fixture = None
   \<and> status (fst (handle Course (Update [(''title'', ''Sets'')]) memory ''2'' fixture)) = 200"
proof -
  have a: "fst (pkLookup memory Student GetById ''9999'' fixture) = Inr None"
    by (simp add: pkLookup_def memory_simps)
  have c: "thrown (unreachable ''connection refused'') Teacher Delete ''1'' () =
       Some ''connection refused''"
    by (simp add: thrown_def pkLookup_def unreachable_def)
  have d: "fst (pkLookup memory Course (Update [(''title'', ''Sets'')]) ''2'' fixture) \<noteq> Inr None"
    "thrown memory Course (Update [(''title'', ''Sets'')]) ''2'' fixture = None"
    by (simp_all add: thrown_def pkLookup_def memory_simps Let_def)
  from a error_outcomes [of Student GetById memory "''9999''" fixture]
  have a': "status (fst (handle Student GetById memory ''9999'' fixture)) = 404
     \<and> body (fst (handle Student GetById memory ''9999'' fixture)) = messageBody ''Not found''"
    by blast
  from c error_outcomes [of Teacher Delete "unreachable ''connection refused''" "''1''" "()"]
  have c': "status (fst (handle Teacher Delete (unreachable ''connection refused'') ''1'' ())) = 500
     \<and> body (fst (handle Teacher Delete (unreachable ''connection refused'') ''1'' ())) =
       errorBody ''connection refused''"
    by blast
  from d error_outcomes [of Course "Update [(''title'', ''Sets'')]" memory "''2''" fixture]
  have d': "status (fst (handle Course (Update [(''title'', ''Sets'')]) memory ''2'' fixture)) = 200"
    by blast
  from a a' c c' d d' show ?thesis
    by blast
qed

section \<open>Delete, then get\<close>

lemma find_filter_other:
  "find (\<lambda>e. pk e = ident) (filter (\<lambda>e. pk e \<noteq> ident) es) = None"
  by (simp add: find_None_iff)

lemma table_set_table: "table m (set_table m es s) = es"
  by (cases m) simp_all

lemma memory_lookup:
  "pkLookup memory m a ident s = (Inr (find (\<lambda>e. pk e = ident) (table m s)), s)"
  by (simp add: pkLookup_def memory_def)

text \<open>
  Claim C9. On the persistence layer in memory, for every entity type and every
  identifier present in its table, the delete handler answers 200 with the body
  \<open>{message: "Deleted"}\<close> and leaves a store without that identifier, on which the
  get-by-id handler answers 404 with \<open>{message: "Not found"}\<close>.
\<close>

theorem delete_then_get:
  assumes "ident \<in> set (map pk (table m s))"
  shows "fst (handle m Delete memory ident s) = \<lparr>status = 200, body = messageBody ''Deleted''\<rparr>
    \<and> ident \<notin> set (map pk (table m (snd (handle m Delete memory ident s))))
    \<and> fst (handle m GetById memory ident (snd (handle m Delete memory ident s))) =
        \<lparr>status = 404, body = messageBody ''Not found''\<rparr>"
proof -
  from assms obtain inst where found: "find (\<lambda>e. pk e = ident) (table m s) = Some inst"
    by (cases "find (\<lambda>e. pk e = ident) (table m s)") (auto simp add: find_None_iff)
  then have key: "pk inst = ident"
    by (auto simp add: find_Some_iff)
  define s' where "s' = set_table m (filter (\<lambda>e. pk e \<noteq> ident) (table m s)) s"
  from found have "pkLookup memory m Delete ident s = (Inr (Some inst), s)"
    by (simp add: memory_lookup)
  then have "handle m Delete memory ident s =
      (case destroy memory m inst s of
         (Inl msg, s2) \<Rightarrow> (\<lparr>status = 500, body = errorBody msg\<rparr>, s2)
       | (Inr u, s2) \<Rightarrow> (\<lparr>status = 200, body = messageBody ''Deleted''\<rparr>, s2))"
    by (rule handle_found_delete)
  moreover have "destroy memory m inst s = (Inr (), s')"
    by (simp add: memory_def key s'_def)
  ultimately have deleted: "handle m Delete memory ident s =
      (\<lparr>status = 200, body = messageBody ''Deleted''\<rparr>, s')"
    by simp
  have gone: "find (\<lambda>e. pk e = ident) (table m s') = None"
    by (simp add: s'_def table_set_table find_filter_other)
  then have "pkLookup memory m GetById ident s' = (Inr None, s')"
    by (simp add: memory_lookup)
  then have "handle m GetById memory ident s' =
      (\<lparr>status = 404, body = messageBody ''Not found''\<rparr>, s')"
    by (rule handle_lookup_nothing)
  moreover from gone have "ident \<notin> set (map pk (table m s'))"
    by (auto simp add: find_None_iff)
  ultimately show ?thesis
    using deleted by simp
qed

theorem delete_then_get_witness:
  "''1'' \<in> set (map pk (table Teacher fixture))
   \<and> fst (handle Teacher Delete memory ''1'' fixture) =
       \<lparr>status = 200, body = messageBody ''Deleted''\<rparr>
   \<and> fst (handle Teacher GetById memory ''1'' (snd (handle Teacher Delete memory ''1'' fixture))) =
       \<lparr>status = 404, body = messageBody ''Not found''\<rparr>"
proof -
  have "''1'' \<in> set (map pk (table Teacher fixture))"
    by (simp add: fixture_def)
  from this delete_then_get [OF this] show ?thesis
    by blast
qed

end
